theory Spec2Isabelle
  imports Main "HOL-Library.Word" "HOL-Library.AList" "HOL-Library.Char_ord" "HOL-Library.List_Lexorder" "HOL-Library.Multiset" "HOL-Library.Sublist"
begin

section \<open>Python text primitives used by the migration scripts\<close>

text \<open>
  A Python \<open>str\<close> is modelled by the list of its code points, restricted to the code
  points below 256 that an Isabelle \<open>char\<close> can hold. On that range the functions below
  compute what the Python built-ins compute.
\<close>

definition py_isspace :: "char \<Rightarrow> bool" where
  \<comment> \<open>\<open>str.isspace\<close> on one code point below 256: TAB..CR, FS..US, space, NEL, NBSP.\<close>
  "py_isspace c =
     (let n = (of_char c :: nat)
      in (9 \<le> n \<and> n \<le> 13) \<or> (28 \<le> n \<and> n \<le> 32) \<or> n = 133 \<or> n = 160)"

definition lstrip :: "string \<Rightarrow> string" where
  \<comment> \<open>\<open>s.lstrip()\<close>\<close>
  "lstrip s = dropWhile py_isspace s"

definition rstrip :: "string \<Rightarrow> string" where
  \<comment> \<open>\<open>s.rstrip()\<close>\<close>
  "rstrip s = rev (dropWhile py_isspace (rev s))"

definition strip :: "string \<Rightarrow> string" where
  \<comment> \<open>\<open>s.strip()\<close>\<close>
  "strip s = rstrip (lstrip s)"

definition lstrip_chars :: "string \<Rightarrow> string \<Rightarrow> string" where
  \<comment> \<open>\<open>s.lstrip(chars)\<close>: drops every leading character that occurs in \<open>chars\<close>.\<close>
  "lstrip_chars chars s = dropWhile (\<lambda>c. c \<in> set chars) s"

definition replace_char :: "char \<Rightarrow> string \<Rightarrow> string \<Rightarrow> string" where
  \<comment> \<open>\<open>s.replace(old, new)\<close> for a pattern \<open>old\<close> of one character, the only
      kind the scripts use.\<close>
  "replace_char old new s = concat (map (\<lambda>c. if c = old then new else [c]) s)"

fun join :: "string \<Rightarrow> string list \<Rightarrow> string" where
  \<comment> \<open>\<open>sep.join(parts)\<close>\<close>
  "join sep [] = []"
| "join sep [p] = p"
| "join sep (p # q # ps) = p @ sep @ join sep (q # ps)"

definition digit_char :: "nat \<Rightarrow> char" where
  "digit_char d = char_of (48 + d)"

fun str_nat :: "nat \<Rightarrow> string" where
  "str_nat n = (if n < 10 then [digit_char n] else str_nat (n div 10) @ [digit_char (n mod 10)])"

declare str_nat.simps [simp del]

definition str_int :: "int \<Rightarrow> string" where
  \<comment> \<open>\<open>str(i)\<close>, also what \<open>f"{i}"\<close> inserts.\<close>
  "str_int i = (if i < 0 then CHR ''-'' # str_nat (nat (- i)) else str_nat (nat i))"

definition rjust :: "nat \<Rightarrow> string \<Rightarrow> string" where
  \<comment> \<open>right-justify in a field of the given width, padding with spaces\<close>
  "rjust w s = replicate (w - length s) CHR '' '' @ s"

definition ljust :: "nat \<Rightarrow> string \<Rightarrow> string" where
  "ljust w s = s @ replicate (w - length s) CHR '' ''"

definition fmt_3d :: "int \<Rightarrow> string" where
  \<comment> \<open>the format specification \<open>{i:3d}\<close>\<close>
  "fmt_3d i = rjust 3 (str_int i)"

definition str_opt :: "string option \<Rightarrow> string" where
  \<comment> \<open>what an f-string inserts for a value that is a \<open>str\<close> or \<open>None\<close>\<close>
  "str_opt v = (case v of None \<Rightarrow> ''None'' | Some s \<Rightarrow> s)"

section \<open>Branch name mapping\<close>

definition git_branch_name :: "string \<Rightarrow> string" where
  \<comment> \<open>\<open>branch.lstrip('/').replace('/', '-')\<close>\<close>
  "git_branch_name branch = replace_char CHR ''/'' ''-'' (lstrip_chars ''/'' branch)"

definition spec_branch_name :: "string \<Rightarrow> string" where
  \<comment> \<open>The mapping in the specification's words: strip a single leading separator,
      then replace every remaining separator with \<open>-\<close>.\<close>
  "spec_branch_name branch =
     replace_char CHR ''/'' ''-'' (case branch of [] \<Rightarrow> [] | c # r \<Rightarrow> if c = CHR ''/'' then r else c # r)"

section \<open>The history document\<close>

text \<open>
  The scripts read the document with ElementTree. An element has a tag, an optional
  text (\<open>None\<close> when the element has no character data) and its child elements in
  document order. \<open>e.find(t)\<close> is the first direct child tagged \<open>t\<close> or \<open>None\<close>;
  \<open>e.findall(t)\<close> lists every direct child tagged \<open>t\<close>.
\<close>

datatype element = Element (elem_tag: string) (elem_text: "string option") (elem_children: "element list")

datatype py_error = AttributeError | TypeError | ValueError | IndexError | OSError

definition elem_find :: "string \<Rightarrow> element \<Rightarrow> element option" where
  "elem_find t e = find (\<lambda>c. elem_tag c = t) (elem_children e)"

definition elem_findall :: "string \<Rightarrow> element \<Rightarrow> element list" where
  "elem_findall t e = filter (\<lambda>c. elem_tag c = t) (elem_children e)"

definition find_text :: "string \<Rightarrow> element \<Rightarrow> py_error + string option" where
  \<comment> \<open>\<open>e.find(t).text\<close>: reading \<open>.text\<close> of \<open>None\<close> raises AttributeError.\<close>
  "find_text t e = (case elem_find t e of None \<Rightarrow> Inl AttributeError | Some c \<Rightarrow> Inr (elem_text c))"

subsection \<open>\<open>int(text)\<close>\<close>

definition is_digit :: "char \<Rightarrow> bool" where
  "is_digit c = (let n = (of_char c :: nat) in 48 \<le> n \<and> n \<le> 57)"

definition digit_val :: "char \<Rightarrow> nat" where
  "digit_val c = of_char c - 48"

fun digits_value :: "nat \<Rightarrow> string \<Rightarrow> nat option" where
  \<comment> \<open>the rest of a decimal literal: digits, single underscores allowed between digits\<close>
  "digits_value acc [] = Some acc"
| "digits_value acc (c # cs) =
     (if is_digit c then digits_value (acc * 10 + digit_val c) cs
      else if c = CHR ''_'' then
        (case cs of
           [] \<Rightarrow> None
         | d # ds \<Rightarrow> if is_digit d then digits_value (acc * 10 + digit_val d) ds else None)
      else None)"

definition decimal_literal :: "string \<Rightarrow> nat option" where
  "decimal_literal s =
     (case s of [] \<Rightarrow> None | c # cs \<Rightarrow> if is_digit c then digits_value (digit_val c) cs else None)"

definition int_isspace :: "char \<Rightarrow> bool" where
  \<comment> \<open>the whitespace \<open>int()\<close> skips around the literal: TAB..CR and space, and of the
      code points from 128 on those that are whitespace (NEL, NBSP). Unlike
      \<open>str.strip\<close> it does not skip FS..US.\<close>
  "int_isspace c =
     (let n = (of_char c :: nat)
      in (9 \<le> n \<and> n \<le> 13) \<or> n = 32 \<or> n = 133 \<or> n = 160)"

definition int_strip :: "string \<Rightarrow> string" where
  "int_strip s = rev (dropWhile int_isspace (rev (dropWhile int_isspace s)))"

definition py_int :: "string option \<Rightarrow> py_error + int" where
  \<comment> \<open>\<open>int(x)\<close> in base 10: TypeError on \<open>None\<close>, ValueError on a string that is not
      an optionally signed decimal literal surrounded by optional whitespace. The
      interpreter's configurable limit on the number of digits is not modelled.\<close>
  "py_int x =
     (case x of
        None \<Rightarrow> Inl TypeError
      | Some s \<Rightarrow>
          (case int_strip s of
             [] \<Rightarrow> Inl ValueError
           | c # r \<Rightarrow>
               (case (if c = CHR ''-'' then map_option (\<lambda>n. - int n) (decimal_literal r)
                      else if c = CHR ''+'' then map_option int (decimal_literal r)
                      else map_option int (decimal_literal (c # r))) of
                  None \<Rightarrow> Inl ValueError
                | Some i \<Rightarrow> Inr i)))"

fun map_err :: "('a \<Rightarrow> 'e + 'b) \<Rightarrow> 'a list \<Rightarrow> 'e + 'b list" where
  \<comment> \<open>a \<open>for\<close> loop that appends one result per element and stops at the first exception\<close>
  "map_err f [] = Inr []"
| "map_err f (x # xs) =
     (case f x of
        Inl e \<Rightarrow> Inl e
      | Inr y \<Rightarrow> (case map_err f xs of Inl e \<Rightarrow> Inl e | Inr ys \<Rightarrow> Inr (y # ys)))"

subsection \<open>\<open>parse_xml_history\<close> (migrate_plastic_to_git.py)\<close>

record change =
  change_type :: "string option"
  src_path :: "string option"
  dst_path :: "string option"

record changeset =
  cs_id :: int
  branch :: "string option"
  comment :: string
  owner :: "string option"
  date_str :: "string option"
  changes :: "change list"

definition parse_item :: "element \<Rightarrow> py_error + change" where
  "parse_item item =
     (case find_text ''Type'' item of Inl e \<Rightarrow> Inl e | Inr ty \<Rightarrow>
      case find_text ''SrcCmPath'' item of Inl e \<Rightarrow> Inl e | Inr src \<Rightarrow>
      case find_text ''DstCmPath'' item of Inl e \<Rightarrow> Inl e | Inr dst \<Rightarrow>
        Inr \<lparr>change_type = ty, src_path = src, dst_path = dst\<rparr>)"

definition parse_changeset :: "element \<Rightarrow> py_error + changeset" where
  \<comment> \<open>the body of the loop over \<open>root.findall('Changeset')\<close>\<close>
  "parse_changeset cs_elem =
     (case find_text ''ChangesetId'' cs_elem of Inl e \<Rightarrow> Inl e | Inr id_text \<Rightarrow>
      case py_int id_text of Inl e \<Rightarrow> Inl e | Inr i \<Rightarrow>
      case find_text ''Branch'' cs_elem of Inl e \<Rightarrow> Inl e | Inr br \<Rightarrow>
      case find_text ''Comment'' cs_elem of Inl e \<Rightarrow> Inl e | Inr cm \<Rightarrow>
      case find_text ''Owner'' cs_elem of Inl e \<Rightarrow> Inl e | Inr ow \<Rightarrow>
      case find_text ''Date'' cs_elem of Inl e \<Rightarrow> Inl e | Inr dt \<Rightarrow>
      case elem_find ''Changes'' cs_elem of None \<Rightarrow> Inl AttributeError | Some ch \<Rightarrow>
      case map_err parse_item (elem_findall ''Item'' ch) of Inl e \<Rightarrow> Inl e | Inr chs \<Rightarrow>
        Inr \<lparr>cs_id = i, branch = br, comment = (case cm of None \<Rightarrow> [] | Some s \<Rightarrow> s),
             owner = ow, date_str = dt, changes = chs\<rparr>)"

definition parse_xml_history :: "element \<Rightarrow> py_error + changeset list" where
  "parse_xml_history root =
     (case map_err parse_changeset (elem_findall ''Changeset'' root) of
        Inl e \<Rightarrow> Inl e
      | Inr changesets \<Rightarrow> Inr (sort_key cs_id changesets))"

section \<open>Commit messages\<close>

type_synonym tally = "(string option \<times> nat) list"

definition tally_get :: "tally \<Rightarrow> string \<Rightarrow> nat" where
  \<comment> \<open>\<open>change_types[k]\<close> on a \<open>defaultdict(int)\<close>: 0 for a key never counted\<close>
  "tally_get t k = (case map_of t (Some k) of None \<Rightarrow> 0 | Some n \<Rightarrow> n)"

definition tally_bump :: "string option \<Rightarrow> tally \<Rightarrow> tally" where
  \<comment> \<open>\<open>change_types[k] += 1\<close>\<close>
  "tally_bump k t = AList.update k (Suc (case map_of t k of None \<Rightarrow> 0 | Some n \<Rightarrow> n)) t"

definition tally_types :: "string option list \<Rightarrow> tally" where
  "tally_types tys = foldl (\<lambda>t k. tally_bump k t) [] tys"

definition message_parts :: "tally \<Rightarrow> string list" where
  \<comment> \<open>the four \<open>if change_types[...]: parts.append(...)\<close> statements, in their order\<close>
  "message_parts t =
     (if tally_get t ''Added'' \<noteq> 0 then [''Add '' @ str_nat (tally_get t ''Added'') @ '' file(s)''] else []) @
     (if tally_get t ''Changed'' \<noteq> 0 then [''Update '' @ str_nat (tally_get t ''Changed'') @ '' file(s)''] else []) @
     (if tally_get t ''Deleted'' \<noteq> 0 then [''Delete '' @ str_nat (tally_get t ''Deleted'') @ '' file(s)''] else []) @
     (if tally_get t ''Moved'' \<noteq> 0 then [''Move '' @ str_nat (tally_get t ''Moved'') @ '' file(s)''] else [])"

definition generate_commit_message :: "changeset \<Rightarrow> string" where
  "generate_commit_message cs =
     (if strip (comment cs) \<noteq> [] then comment cs
      else
        let change_types = tally_types (map change_type (changes cs))
        in if change_types = [] then ''Update (changeset '' @ str_int (cs_id cs) @ '')''
           else join '', '' (message_parts change_types))"

subsection \<open>\<open>parse_history\<close> (migrate_simple.py)\<close>

record simple_changeset =
  s_id :: int
  s_branch :: "string option"
  s_comment :: string
  s_date :: "string option"

definition simple_parse_changeset :: "element \<Rightarrow> py_error + simple_changeset" where
  "simple_parse_changeset cs =
     (case find_text ''ChangesetId'' cs of Inl e \<Rightarrow> Inl e | Inr id_text \<Rightarrow>
      case py_int id_text of Inl e \<Rightarrow> Inl e | Inr i \<Rightarrow>
      case find_text ''Branch'' cs of Inl e \<Rightarrow> Inl e | Inr br \<Rightarrow>
      case find_text ''Comment'' cs of Inl e \<Rightarrow> Inl e | Inr cm \<Rightarrow>
      case find_text ''Date'' cs of Inl e \<Rightarrow> Inl e | Inr dt \<Rightarrow>
      case map_err (find_text ''Type'')
             (case elem_find ''Changes'' cs of None \<Rightarrow> [] | Some ch \<Rightarrow> elem_children ch) of
        Inl e \<Rightarrow> Inl e
      | Inr tys \<Rightarrow>
          let comment0 = strip (case cm of None \<Rightarrow> [] | Some s \<Rightarrow> s);
              change_types = tally_types tys;
              parts = message_parts change_types
          in Inr \<lparr>s_id = i, s_branch = br,
                  s_comment =
                    (if comment0 = [] then
                       (if parts \<noteq> [] then join '', '' parts
                        else ''Update (changeset '' @ str_int i @ '')'')
                     else comment0),
                  s_date = dt\<rparr>)"

definition parse_history :: "element \<Rightarrow> py_error + simple_changeset list" where
  "parse_history root =
     (case map_err simple_parse_changeset (elem_findall ''Changeset'' root) of
        Inl e \<Rightarrow> Inl e
      | Inr changesets \<Rightarrow> Inr (sort_key s_id changesets))"

section \<open>External tools and the filesystem\<close>

text \<open>
  Everything the scripts do to the outside world is recorded, in order, as a trace of
  events. What the outside world answers is an environment: it may depend on the
  whole trace so far, so a command can succeed once and fail later.
\<close>

type_synonym bytes = "8 word list"

datatype event =
    Run string \<comment> \<open>\<open>subprocess.run(cmd, shell=True, ...)\<close> was called\<close>
  | Print string \<comment> \<open>\<open>print(s)\<close>\<close>
  | PrintInline string \<comment> \<open>\<open>print(s, end='', flush=True)\<close>\<close>
  | MakeDirs string \<comment> \<open>\<open>os.makedirs(d, exist_ok=True)\<close>\<close>
  | WriteFile string bytes \<comment> \<open>\<open>open(p, 'wb')\<close> and \<open>f.write(b)\<close>: the file holds exactly \<open>b\<close>\<close>
  | Remove string \<comment> \<open>\<open>os.remove(p)\<close>\<close>

datatype proc_result =
    Completed string int \<comment> \<open>decoded standard output and return code\<close>
  | Raised string \<comment> \<open>\<open>subprocess.run\<close> raised; the text is \<open>str(e)\<close>\<close>

record env =
  subprocess_run :: "event list \<Rightarrow> string \<Rightarrow> proc_result"
  path_exists :: "event list \<Rightarrow> string \<Rightarrow> bool"
  os_raises :: "event list \<Rightarrow> event \<Rightarrow> bool"
  path_join :: "string \<Rightarrow> string \<Rightarrow> string"
  path_dirname :: "string \<Rightarrow> string"

definition backslash :: char where
  "backslash = CHR 0x5C"

definition WORK_DIR :: string where
  "WORK_DIR = ''E:'' @ [backslash] @ ''Projects'' @ [backslash] @ ''Unity'' @ [backslash] @ ''ClosureBT''"

definition GIT_AUTHOR_EMAIL :: string where
  "GIT_AUTHOR_EMAIL = ''danilodevs@gmail.com''"

definition GIT_AUTHOR_NAME :: string where
  "GIT_AUTHOR_NAME = ''Danilo Devs''"

definition utf8_char :: "char \<Rightarrow> bytes" where
  "utf8_char c =
     (let n = (of_char c :: nat)
      in if n < 128 then [of_nat n] else [of_nat (192 + n div 64), of_nat (128 + n mod 64)])"

definition encode_utf8 :: "string \<Rightarrow> bytes" where
  \<comment> \<open>\<open>s.encode('utf-8', errors='ignore')\<close>; no code point below 256 is ignored\<close>
  "encode_utf8 s = concat (map utf8_char s)"

section \<open>migrate_plastic_to_git.py\<close>

definition run_command :: "env \<Rightarrow> event list \<Rightarrow> string \<Rightarrow> bool \<Rightarrow> (string option \<times> int) \<times> event list" where
  \<comment> \<open>\<open>run_command(cmd, capture)\<close> with \<open>cwd\<close> and \<open>check\<close> at the values every call
      site leaves them at (\<open>WORK_DIR\<close>, \<open>False\<close>): it never raises.\<close>
  \<open>run_command E tr cmd capture =
     (case subprocess_run E tr cmd of
        Completed out code \<Rightarrow>
          ((if capture then Some (strip out) else None, code), tr @ [Run cmd])
      | Raised e \<Rightarrow>
          ((None, 1),
           tr @ [Run cmd, Print (''Error running command: '' @ cmd), Print (''Exception: '' @ e)]))\<close>

definition get_or_create_branch :: "env \<Rightarrow> event list \<Rightarrow> string \<Rightarrow> string \<times> event list" where
  \<open>get_or_create_branch E tr branch_name =
     (let git_branch = git_branch_name branch_name;
          (r, tr1) = run_command E tr (''git rev-parse --verify '' @ git_branch @ '' 2>nul'') False
      in if snd r \<noteq> 0 then
           (let (r2, tr2) = run_command E tr1 (''git checkout -b '' @ git_branch) False
            in (git_branch, tr2 @ [Print (''    Created branch: '' @ git_branch)]))
         else
           (let (r2, tr2) = run_command E tr1 (''git checkout '' @ git_branch) False
            in (git_branch, tr2)))\<close>

definition files_to_process :: "changeset \<Rightarrow> int \<Rightarrow> (string \<times> string option \<times> int) list" where
  \<comment> \<open>the first loop of \<open>apply_changeset_files\<close>\<close>
  "files_to_process cs changeset_id =
     concat (map (\<lambda>c.
       if change_type c = Some ''Added'' \<or> change_type c = Some ''Changed'' then
         [(''add_or_update'', dst_path c, changeset_id)]
       else if change_type c = Some ''Deleted'' then
         [(''delete'', dst_path c, changeset_id)]
       else if change_type c = Some ''Moved'' then
         [(''delete'', src_path c, changeset_id), (''add_or_update'', dst_path c, changeset_id)]
       else []) (changes cs))"

definition cat_cmd :: "string option \<Rightarrow> int \<Rightarrow> string" where
  \<comment> \<open>the content retrieval command: \<open>f'cm cat "{path}" --rev="cs:{cs_id}" 2>nul'\<close>\<close>
  \<open>cat_cmd path rev_id = ''cm cat "'' @ str_opt path @ ''" --rev="cs:'' @ str_int rev_id @ ''" 2>nul''\<close>

definition process_file :: "env \<Rightarrow> event list \<Rightarrow> string \<times> string option \<times> int \<Rightarrow> py_error option \<times> event list" where
  \<comment> \<open>the body of the second loop of \<open>apply_changeset_files\<close>; \<open>None\<close> is normal
      completion\<close>
  \<open>process_file E tr job =
     (case job of (action, path, rev_id) \<Rightarrow>
        if action = ''add_or_update'' then
          (let cmd = cat_cmd path rev_id;
               (r, tr1) = run_command E tr cmd True
           in if snd r = 0 then
                (case path of
                   None \<Rightarrow> (Some AttributeError, tr1)
                 | Some p \<Rightarrow>
                     (let full_path = path_join E WORK_DIR (lstrip_chars ''/'' p);
                          d = path_dirname E full_path
                      in if os_raises E tr1 (MakeDirs d) then (Some OSError, tr1)
                         else
                           (let tr2 = tr1 @ [MakeDirs d]
                            in case fst r of
                                 None \<Rightarrow>
                                   if os_raises E tr2 (WriteFile full_path []) then (Some OSError, tr2)
                                   else (Some TypeError, tr2 @ [WriteFile full_path []])
                               | Some content \<Rightarrow>
                                   if os_raises E tr2 (WriteFile full_path (encode_utf8 content))
                                   then (Some OSError, tr2)
                                   else (None, tr2 @ [WriteFile full_path (encode_utf8 content)]))))
              else (None, tr1 @ [Print (''      Warning: Could not extract '' @ str_opt path)]))
        else if action = ''delete'' then
          (case path of
             None \<Rightarrow> (Some AttributeError, tr)
           | Some p \<Rightarrow>
               (let full_path = path_join E WORK_DIR (lstrip_chars ''/'' p)
                in if path_exists E tr full_path then
                     (if os_raises E tr (Remove full_path) then (Some OSError, tr)
                      else
                        (let (r, tr1) = run_command E (tr @ [Remove full_path]) (''git rm "'' @ p @ ''" 2>nul'') False
                         in (None, tr1)))
                   else (None, tr)))
        else (None, tr))\<close>

fun process_files :: "env \<Rightarrow> event list \<Rightarrow> (string \<times> string option \<times> int) list \<Rightarrow> py_error option \<times> event list" where
  "process_files E tr [] = (None, tr)"
| "process_files E tr (job # jobs) =
     (case process_file E tr job of
        (Some e, tr1) \<Rightarrow> (Some e, tr1)
      | (None, tr1) \<Rightarrow> process_files E tr1 jobs)"

definition apply_changeset_files :: "env \<Rightarrow> event list \<Rightarrow> changeset \<Rightarrow> int \<Rightarrow> py_error option \<times> event list" where
  "apply_changeset_files E tr cs changeset_id = process_files E tr (files_to_process cs changeset_id)"

definition message_safe :: "string \<Rightarrow> string" where
  \<comment> \<open>\<open>message.replace('"', '\\"').replace('$', '\\$')\<close>\<close>
  "message_safe message =
     replace_char CHR ''$'' [backslash, CHR ''$''] (replace_char CHR 0x22 [backslash, CHR 0x22] message)"

definition commit_cmd :: "string \<Rightarrow> string option \<Rightarrow> string \<Rightarrow> string \<Rightarrow> string" where
  \<comment> \<open>the command line built in \<open>create_git_commit\<close>\<close>
  \<open>commit_cmd message timestamp author_email author_name =
     ''git -c user.email="'' @ author_email @ ''" -c user.name="'' @ author_name
       @ ''" commit --allow-empty --date="'' @ str_opt timestamp
       @ ''" -m "'' @ message_safe message @ ''"''\<close>

definition create_git_commit :: "env \<Rightarrow> event list \<Rightarrow> string \<Rightarrow> string option \<Rightarrow> string \<Rightarrow> string \<Rightarrow> bool \<times> event list" where
  \<open>create_git_commit E tr message date author_email author_name =
     (let (r0, tr1) = run_command E tr ''git add -A'' False;
          timestamp = date;
          (r, tr2) = run_command E tr1 (commit_cmd message timestamp author_email author_name) False
      in (snd r = 0, tr2))\<close>

definition newline :: char where
  "newline = CHR 0x0A"

definition check_mark :: string where
  \<comment> \<open>the glyph U+2713, carried as its UTF-8 bytes\<close>
  "check_mark = [CHR 0xE2, CHR 0x9C, CHR 0x93]"

definition cross_mark :: string where
  \<comment> \<open>the glyph U+2717, carried as its UTF-8 bytes\<close>
  "cross_mark = [CHR 0xE2, CHR 0x9C, CHR 0x97]"

record locals =
  current_branch :: "string option"
  git_branches :: "string set"

definition progress_line :: "nat \<Rightarrow> nat \<Rightarrow> int \<Rightarrow> string \<Rightarrow> string" where
  \<comment> \<open>\<open>f"[{cs_num:3d}/{len(changesets)}] cs:{cs['id']:3d} | {branch_display:<40} | "\<close>\<close>
  "progress_line cs_num ntotal i branch_display =
     ''['' @ fmt_3d (int cs_num) @ ''/'' @ str_nat ntotal @ ''] cs:'' @ fmt_3d i @ '' | ''
       @ ljust 40 branch_display @ '' | ''"

definition migrate_step :: "env \<Rightarrow> nat \<Rightarrow> nat \<Rightarrow> changeset \<Rightarrow> locals \<Rightarrow> event list \<Rightarrow> (py_error + locals) \<times> event list" where
  \<comment> \<open>the body of the loop of \<open>migrate_history\<close>, for the changeset at index \<open>i\<close> of
      \<open>ntotal\<close>; slicing a branch that is \<open>None\<close> raises TypeError\<close>
  \<open>migrate_step E ntotal i cs L tr =
     (case branch cs of
        None \<Rightarrow> (Inl TypeError, tr)
      | Some b \<Rightarrow>
          (let cs_num = i + 1;
               branch_display = take 40 b;
               tr0 = tr @ [PrintInline (progress_line cs_num ntotal (cs_id cs) branch_display)];
               git_branch = git_branch_name b;
               (L1, tr1) =
                 (if Some git_branch \<noteq> current_branch L then
                    (let (g, t) = get_or_create_branch E tr0 git_branch
                     in (\<lparr>current_branch = Some git_branch,
                          git_branches = insert git_branch (git_branches L)\<rparr>, t))
                  else (L, tr0));
               message = generate_commit_message cs
           in case apply_changeset_files E tr1 cs (cs_id cs) of
                (Some e, tr2) \<Rightarrow> (Inl e, tr2)
              | (None, tr2) \<Rightarrow>
                  (let (ok, tr3) = create_git_commit E tr2 message (date_str cs) GIT_AUTHOR_EMAIL GIT_AUTHOR_NAME
                   in (Inr L1, tr3 @ [Print (if ok then check_mark else cross_mark @ '' commit failed'')]))))\<close>

fun migrate_loop :: "env \<Rightarrow> nat \<Rightarrow> nat \<Rightarrow> changeset list \<Rightarrow> locals \<Rightarrow> event list \<Rightarrow> (py_error + locals) \<times> event list" where
  \<comment> \<open>\<open>for i, cs in enumerate(changesets)\<close>, from index \<open>i\<close> on\<close>
  "migrate_loop E ntotal i [] L tr = (Inr L, tr)"
| "migrate_loop E ntotal i (cs # rest) L tr =
     (case migrate_step E ntotal i cs L tr of
        (Inl e, tr1) \<Rightarrow> (Inl e, tr1)
      | (Inr L1, tr1) \<Rightarrow> migrate_loop E ntotal (Suc i) rest L1 tr1)"

definition summary_lines :: "nat \<Rightarrow> locals \<Rightarrow> event list" where
  \<comment> \<open>the summary block printed after the loop of \<open>migrate_history\<close>\<close>
  "summary_lines ntotal L =
     [Print (newline # replicate 70 CHR ''=''),
      Print (check_mark @ '' Migration complete!''),
      Print (''  - '' @ str_nat ntotal @ '' commits created''),
      Print (''  - '' @ str_nat (card (git_branches L)) @ '' branches created''),
      Print (replicate 70 CHR ''='' @ [newline]),
      Print ''Branches created:'']"

definition migrate_history :: "env \<Rightarrow> element \<Rightarrow> py_error option \<times> event list" where
  \<comment> \<open>\<open>migrate_history()\<close> on the parsed document \<open>root\<close>: the exception that ends the
      run, if any, and everything done up to there. Indexing an empty changeset list
      raises IndexError.\<close>
  "migrate_history E root =
     (let tr0 = [Print ''Parsing Plastic SCM history...'']
      in case parse_xml_history root of
           Inl e \<Rightarrow> (Some e, tr0)
         | Inr changesets \<Rightarrow>
             (case changesets of
                [] \<Rightarrow> (Some IndexError, tr0)
              | c # cs \<Rightarrow>
                  (let tr1 = tr0 @
                         [Print (''Found '' @ str_nat (length changesets) @ '' changesets (IDs: ''
                                  @ str_int (cs_id (hd changesets)) @ '' to ''
                                  @ str_int (cs_id (last changesets)) @ '')'' @ [newline]),
                          Print (''Starting migration...'' @ [newline])]
                   in case migrate_loop E (length changesets) 0 changesets
                             \<lparr>current_branch = None, git_branches = {}\<rparr> tr1 of
                        (Inl e, tr2) \<Rightarrow> (Some e, tr2)
                      | (Inr L, tr2) \<Rightarrow>
                          (let (r, tr3) = run_command E (tr2 @ summary_lines (length changesets) L)
                                            ''git branch -a'' False
                           in (None, tr3)))))"

section \<open>migrate_simple.py\<close>

definition run_cmd :: "env \<Rightarrow> event list \<Rightarrow> string \<Rightarrow> bool \<Rightarrow> (string option \<times> int) \<times> event list" where
  \<comment> \<open>\<open>run_cmd(cmd, capture)\<close>; a timeout is one of the exceptions \<open>subprocess.run\<close>
      raises\<close>
  "run_cmd E tr cmd capture =
     (case subprocess_run E tr cmd of
        Completed out code \<Rightarrow>
          ((if capture then Some (strip out) else None, code), tr @ [Run cmd])
      | Raised e \<Rightarrow> ((None, 1), tr @ [Run cmd, Print (''Error: '' @ e)]))"

record simple_locals =
  s_current_branch :: "string option"
  s_git_branches :: "string set"
  success_count :: nat

definition simple_commit_cmd :: "simple_changeset \<Rightarrow> string" where
  \<comment> \<open>\<open>message\<close> and \<open>commit_cmd\<close> in the loop of \<open>migrate\<close>\<close>
  \<open>simple_commit_cmd cs =
     (let message = replace_char CHR 0x27 [CHR 0x27, backslash, CHR 0x27, CHR 0x27]
                      (replace_char CHR 0x22 [backslash, CHR 0x22] (s_comment cs))
      in ''git -c user.email="'' @ GIT_AUTHOR_EMAIL @ ''" -c user.name="'' @ GIT_AUTHOR_NAME
           @ ''" commit --allow-empty --date="'' @ str_opt (s_date cs)
           @ ''" -m "'' @ message @ ''"'')\<close>

definition simple_progress_line :: "nat \<Rightarrow> nat \<Rightarrow> int \<Rightarrow> string" where
  \<comment> \<open>\<open>f"[{i+1:3d}/{len(changesets)}] cs:{cs['id']:3d} | "\<close>\<close>
  "simple_progress_line num ntotal i =
     ''['' @ fmt_3d (int num) @ ''/'' @ str_nat ntotal @ ''] cs:'' @ fmt_3d i @ '' | ''"

definition simple_switch_branch :: "env \<Rightarrow> simple_locals \<Rightarrow> event list \<Rightarrow> string \<Rightarrow> simple_locals \<times> event list" where
  \<comment> \<open>the block \<open>if git_branch != current_branch: ...\<close> of the loop of \<open>migrate\<close>\<close>
  "simple_switch_branch E L tr git_branch =
     (if Some git_branch \<noteq> s_current_branch L then
        (let (rc, t1) = run_cmd E tr (''git rev-parse --verify '' @ git_branch @ '' 2>nul'') False;
             (r2, t2) = (if snd rc \<noteq> 0
                         then run_cmd E t1 (''git checkout -b '' @ git_branch) False
                         else run_cmd E t1 (''git checkout '' @ git_branch) False)
         in (L\<lparr>s_current_branch := Some git_branch,
               s_git_branches := insert git_branch (s_git_branches L)\<rparr>, t2))
      else (L, tr))"

definition simple_step :: "env \<Rightarrow> nat \<Rightarrow> nat \<Rightarrow> simple_changeset \<Rightarrow> simple_locals \<Rightarrow> event list \<Rightarrow> (py_error + simple_locals) \<times> event list" where
  \<comment> \<open>the body of the loop of \<open>migrate\<close>; \<open>lstrip\<close> on a branch that is \<open>None\<close> raises
      AttributeError\<close>
  \<open>simple_step E ntotal i cs L tr =
     (let tr0 = tr @ [PrintInline (simple_progress_line (i + 1) ntotal (s_id cs))];
          (r, tr1) = run_cmd E tr0 (''cm switch cs:'' @ str_int (s_id cs)) False
      in if snd r \<noteq> 0 then (Inr L, tr1 @ [Print ''X switch failed''])
         else
           (case s_branch cs of
              None \<Rightarrow> (Inl AttributeError, tr1)
            | Some b \<Rightarrow>
                (let git_branch = git_branch_name b;
                     (L1, tr2) = simple_switch_branch E L tr1 git_branch;
                     (r3, tr3) = run_cmd E tr2 ''git add -A'' False;
                     (r4, tr4) = run_cmd E tr3 (simple_commit_cmd cs) False
                 in if snd r4 = 0
                    then (Inr (L1\<lparr>success_count := success_count L1 + 1\<rparr>), tr4 @ [Print ''OK''])
                    else (Inr L1, tr4 @ [Print ''FAIL'']))))\<close>

fun simple_loop :: "env \<Rightarrow> nat \<Rightarrow> nat \<Rightarrow> simple_changeset list \<Rightarrow> simple_locals \<Rightarrow> event list \<Rightarrow> (py_error + simple_locals) \<times> event list" where
  "simple_loop E ntotal i [] L tr = (Inr L, tr)"
| "simple_loop E ntotal i (cs # rest) L tr =
     (case simple_step E ntotal i cs L tr of
        (Inl e, tr1) \<Rightarrow> (Inl e, tr1)
      | (Inr L1, tr1) \<Rightarrow> simple_loop E ntotal (Suc i) rest L1 tr1)"

definition simple_summary_lines :: "nat \<Rightarrow> simple_locals \<Rightarrow> event list" where
  "simple_summary_lines ntotal L =
     [Print (newline # replicate 70 CHR ''=''),
      Print (''Complete: '' @ str_nat (success_count L) @ ''/'' @ str_nat ntotal @ '' commits created''),
      Print (''  Branches: '' @ join '', '' (sorted_list_of_set (s_git_branches L))),
      Print (replicate 70 CHR ''='' @ [newline])]"

definition migrate :: "env \<Rightarrow> element \<Rightarrow> py_error option \<times> event list" where
  "migrate E root =
     (let tr0 = [Print ''Parsing history...'']
      in case parse_history root of
           Inl e \<Rightarrow> (Some e, tr0)
         | Inr changesets \<Rightarrow>
             (let tr1 = tr0 @ [Print (''Found '' @ str_nat (length changesets) @ '' changesets'' @ [newline]),
                               Print (''Migrating...'' @ [newline])]
              in case simple_loop E (length changesets) 0 changesets
                        \<lparr>s_current_branch = None, s_git_branches = {}, success_count = 0\<rparr> tr1 of
                   (Inl e, tr2) \<Rightarrow> (Some e, tr2)
                 | (Inr L, tr2) \<Rightarrow> (None, tr2 @ simple_summary_lines (length changesets) L)))"

section \<open>Observations on a run\<close>

definition commands :: "event list \<Rightarrow> string list" where
  \<comment> \<open>the command lines handed to \<open>subprocess.run\<close>, in order\<close>
  "commands tr = concat (map (\<lambda>e. case e of Run c \<Rightarrow> [c] | _ \<Rightarrow> []) tr)"

definition commit_attempts :: "event list \<Rightarrow> string list" where
  \<comment> \<open>the commit commands among them: both scripts start these, and no other
      command, with \<open>git -c\<close>\<close>
  "commit_attempts tr = filter (\<lambda>c. take 7 c = ''git -c '') (commands tr)"

definition branch_commands :: "event list \<Rightarrow> string list" where
  \<comment> \<open>the branch probes, creations and checkouts among them\<close>
  "branch_commands tr =
     filter (\<lambda>c. take 14 c = ''git rev-parse '' \<or> take 13 c = ''git checkout '') (commands tr)"

definition failed :: "proc_result \<Rightarrow> bool" where
  \<comment> \<open>the external operation reported failure: a non-zero return code or an exception\<close>
  "failed r = (case r of Completed out code \<Rightarrow> code \<noteq> 0 | Raised e \<Rightarrow> True)"

definition commit_of :: "changeset \<Rightarrow> string" where
  \<comment> \<open>the commit command \<open>migrate_history\<close> issues for a changeset\<close>
  "commit_of cs =
     commit_cmd (generate_commit_message cs) (date_str cs) GIT_AUTHOR_EMAIL GIT_AUTHOR_NAME"

definition mapped_branches :: "changeset list \<Rightarrow> string set" where
  \<comment> \<open>the mapped branch names of a list of changesets\<close>
  "mapped_branches css =
     set (concat (map (\<lambda>cs. case branch cs of None \<Rightarrow> [] | Some b \<Rightarrow> [git_branch_name b]) css))"

definition simple_mapped_branches :: "simple_changeset list \<Rightarrow> string set" where
  "simple_mapped_branches css =
     set (concat (map (\<lambda>cs. case s_branch cs of None \<Rightarrow> [] | Some b \<Rightarrow> [git_branch_name b]) css))"

definition written_files :: "event list \<Rightarrow> (string \<times> bytes) list" where
  \<comment> \<open>the files written, with their contents, in order\<close>
  "written_files tr = concat (map (\<lambda>e. case e of WriteFile p b \<Rightarrow> [(p, b)] | _ \<Rightarrow> []) tr)"

subsection \<open>The synthesized message in the specification's words\<close>

definition count_type :: "string \<Rightarrow> string option list \<Rightarrow> nat" where
  "count_type ty tys = length (filter (\<lambda>t. t = Some ty) tys)"

definition spec_part :: "string \<Rightarrow> string \<Rightarrow> string option list \<Rightarrow> string list" where
  \<comment> \<open>a type that is present is listed with its count\<close>
  "spec_part verb ty tys =
     (if 0 < count_type ty tys then [verb @ '' '' @ str_nat (count_type ty tys) @ '' file(s)''] else [])"

definition spec_message :: "string option list \<Rightarrow> string" where
  \<comment> \<open>in the order Added, Changed, Deleted, Moved, joined by a comma and a space\<close>
  "spec_message tys =
     join '', '' (spec_part ''Add'' ''Added'' tys @ spec_part ''Update'' ''Changed'' tys
                  @ spec_part ''Delete'' ''Deleted'' tys @ spec_part ''Move'' ''Moved'' tys)"

section \<open>Sample documents and environments\<close>

definition leaf :: "string \<Rightarrow> string \<Rightarrow> element" where
  "leaf t s = Element t (Some s) []"

definition item_elem :: "string \<Rightarrow> string \<Rightarrow> string \<Rightarrow> element" where
  "item_elem ty src dst =
     Element ''Item'' None [leaf ''Type'' ty, leaf ''SrcCmPath'' src, leaf ''DstCmPath'' dst]"

definition changeset_elem :: "string \<Rightarrow> string \<Rightarrow> string option \<Rightarrow> element list \<Rightarrow> element" where
  \<comment> \<open>a changeset record with the given id, branch and comment, followed by \<open>rest\<close>\<close>
  "changeset_elem i b c rest =
     Element ''Changeset'' None
       ([leaf ''ChangesetId'' i, leaf ''Branch'' b, Element ''Comment'' c [],
         leaf ''Owner'' ''dan'', leaf ''Date'' ''2024-01-01''] @ rest)"

definition history :: "element list \<Rightarrow> element" where
  "history cs = Element ''PlasticHistory'' None cs"

definition sample_env :: "(event list \<Rightarrow> string \<Rightarrow> proc_result) \<Rightarrow> env" where
  \<comment> \<open>the given external tools over a filesystem on which every call succeeds\<close>
  "sample_env run =
     \<lparr>subprocess_run = run,
      path_exists = (\<lambda>tr p. False),
      os_raises = (\<lambda>tr e. False),
      path_join = (\<lambda>a b. a @ [backslash] @ b),
      path_dirname = (\<lambda>p. rev (tl (dropWhile (\<lambda>c. c \<noteq> backslash) (rev p))))\<rparr>"

definition all_ok :: "event list \<Rightarrow> string \<Rightarrow> proc_result" where
  "all_ok tr c = Completed [] 0"

definition cat_hello :: "event list \<Rightarrow> string \<Rightarrow> proc_result" where
  \<comment> \<open>the content provider returns the six bytes of \<open>hello\<close> and a line feed\<close>
  "cat_hello tr c =
     (if take 7 c = ''cm cat '' then Completed (''hello'' @ [newline]) 0 else Completed [] 0)"

definition checkout_fails :: "event list \<Rightarrow> string \<Rightarrow> proc_result" where
  \<comment> \<open>no branch exists and none can be created or checked out\<close>
  "checkout_fails tr c =
     (if take 14 c = ''git rev-parse '' \<or> take 13 c = ''git checkout '' then Completed [] 1
      else Completed [] 0)"

definition first_commit_fails :: "event list \<Rightarrow> string \<Rightarrow> proc_result" where
  \<comment> \<open>the first commit command of the run fails, every other command succeeds\<close>
  "first_commit_fails tr c =
     (if take 7 c = ''git -c '' \<and> commit_attempts tr = [] then Completed [] 1 else Completed [] 0)"

definition doc_unsorted :: element where
  "doc_unsorted =
     history [changeset_elem ''3'' ''/main'' (Some ''third'') [Element ''Changes'' None []],
              changeset_elem ''1'' ''/main'' (Some ''first'') [Element ''Changes'' None []],
              changeset_elem ''2'' ''/main'' (Some ''second'') [Element ''Changes'' None []]]"

definition doc_sorted :: element where
  \<comment> \<open>the records of \<open>doc_unsorted\<close> in another order\<close>
  "doc_sorted =
     history [changeset_elem ''1'' ''/main'' (Some ''first'') [Element ''Changes'' None []],
              changeset_elem ''2'' ''/main'' (Some ''second'') [Element ''Changes'' None []],
              changeset_elem ''3'' ''/main'' (Some ''third'') [Element ''Changes'' None []]]"

definition doc_no_changes :: element where
  \<comment> \<open>one changeset record without a \<open>Changes\<close> section\<close>
  "doc_no_changes = history [changeset_elem ''7'' ''/main'' None []]"

definition doc_added_file :: element where
  "doc_added_file =
     history [changeset_elem ''1'' ''/main'' (Some ''add a'')
                [Element ''Changes'' None [item_elem ''Added'' ''/a.txt'' ''/a.txt'']]]"

definition doc_two :: element where
  "doc_two =
     history [changeset_elem ''1'' ''/main'' (Some ''first'') [Element ''Changes'' None []],
              changeset_elem ''2'' ''/main'' (Some ''second'') [Element ''Changes'' None []]]"

definition doc_padded_comment :: element where
  "doc_padded_comment =
     history [changeset_elem ''1'' ''/main'' (Some '' fix '') [Element ''Changes'' None []]]"

definition cs_three_added_one_deleted :: changeset where
  "cs_three_added_one_deleted =
     \<lparr>cs_id = 5, branch = Some ''/main'', comment = ''  '', owner = Some ''dan'',
      date_str = Some ''2024-01-01'',
      changes = [\<lparr>change_type = Some ''Added'', src_path = Some ''/a'', dst_path = Some ''/a''\<rparr>,
                 \<lparr>change_type = Some ''Deleted'', src_path = Some ''/d'', dst_path = Some ''/d''\<rparr>,
                 \<lparr>change_type = Some ''Added'', src_path = Some ''/b'', dst_path = Some ''/b''\<rparr>,
                 \<lparr>change_type = Some ''Added'', src_path = Some ''/c'', dst_path = Some ''/c''\<rparr>]\<rparr>"

definition elem_three_added_one_deleted :: element where
  "elem_three_added_one_deleted =
     changeset_elem ''5'' ''/main'' None
       [Element ''Changes'' None
          [item_elem ''Added'' ''/a'' ''/a'', item_elem ''Deleted'' ''/d'' ''/d'',
           item_elem ''Added'' ''/b'' ''/b'', item_elem ''Added'' ''/c'' ''/c'']]"

definition cs_empty :: changeset where
  \<comment> \<open>no comment, no changes\<close>
  "cs_empty =
     \<lparr>cs_id = 42, branch = Some ''/main/feature-x'', comment = [], owner = Some ''dan'',
      date_str = Some ''2024-01-01'', changes = []\<rparr>"

definition no_locals :: locals where
  \<comment> \<open>the driver's variables before the first changeset\<close>
  "no_locals = \<lparr>current_branch = None, git_branches = {}\<rparr>"

definition elem_empty :: element where
  \<comment> \<open>the record of a changeset without comment and without changes\<close>
  "elem_empty = changeset_elem ''42'' ''/main/feature-x'' None [Element ''Changes'' None []]"

definition simple_no_locals :: simple_locals where
  \<comment> \<open>the variables of \<open>migrate\<close> before the first changeset\<close>
  "simple_no_locals = \<lparr>s_current_branch = None, s_git_branches = {}, success_count = 0\<rparr>"

definition cs_added :: changeset where
  \<comment> \<open>the changeset of \<open>doc_added_file\<close> as \<open>parse_xml_history\<close> returns it\<close>
  "cs_added =
     \<lparr>cs_id = 1, branch = Some ''/main'', comment = ''add a'', owner = Some ''dan'',
      date_str = Some ''2024-01-01'',
      changes = [\<lparr>change_type = Some ''Added'', src_path = Some ''/a.txt'', dst_path = Some ''/a.txt''\<rparr>]\<rparr>"

definition sc_added :: simple_changeset where
  \<comment> \<open>the changeset of \<open>doc_added_file\<close> as \<open>parse_history\<close> returns it\<close>
  "sc_added = \<lparr>s_id = 1, s_branch = Some ''/main'', s_comment = ''add a'', s_date = Some ''2024-01-01''\<rparr>"

definition cs_mixed :: changeset where
  \<comment> \<open>an Added, a Deleted and a Moved change\<close>
  "cs_mixed =
     \<lparr>cs_id = 3, branch = Some ''/main'', comment = ''mix'', owner = Some ''dan'',
      date_str = Some ''2024-01-03'',
      changes = [\<lparr>change_type = Some ''Added'', src_path = Some ''/a.txt'', dst_path = Some ''/a.txt''\<rparr>,
                 \<lparr>change_type = Some ''Deleted'', src_path = Some ''/d.txt'', dst_path = Some ''/d.txt''\<rparr>,
                 \<lparr>change_type = Some ''Moved'', src_path = Some ''/m1.txt'', dst_path = Some ''/m2.txt''\<rparr>]\<rparr>"

definition mixed_env :: env where
  \<comment> \<open>branch commands fail, the content provider returns \<open>hello\<close>, every path exists\<close>
  "mixed_env =
     (sample_env (\<lambda>tr c. if take 14 c = ''git rev-parse '' \<or> take 13 c = ''git checkout '' then Completed [] 1
                          else if take 7 c = ''cm cat '' then Completed ''hello'' 0
                          else Completed [] 0))
       \<lparr>path_exists := (\<lambda>tr p. True)\<rparr>"

section \<open>Properties of the branch name mapping\<close>

lemma replace_char_single: "replace_char a [b] s = map (\<lambda>c. if c = a then b else c) s"
  by (induction s) (auto simp: replace_char_def)

lemma git_branch_name_map:
  "git_branch_name b =
     map (\<lambda>c. if c = CHR ''/'' then CHR ''-'' else c) (dropWhile (\<lambda>c. c = CHR ''/'') b)"
  by (simp add: git_branch_name_def lstrip_chars_def replace_char_single)

lemma git_branch_name_no_separator: "CHR ''/'' \<notin> set (git_branch_name b)"
  unfolding git_branch_name_map by auto

lemma git_branch_name_idem: "git_branch_name (git_branch_name b) = git_branch_name b"
proof -
  have "git_branch_name s = s" if "CHR ''/'' \<notin> set s" for s
  proof -
    from that have "dropWhile (\<lambda>c. c = CHR ''/'') s = s"
      by (cases s) auto
    moreover from that have "map (\<lambda>c. if c = CHR ''/'' then CHR ''-'' else c) s = s"
      by (induction s) auto
    ultimately show ?thesis by (simp add: git_branch_name_map)
  qed
  then show ?thesis using git_branch_name_no_separator by blast
qed

text \<open>
  C5, as the code has it. \<open>lstrip('/')\<close> removes every leading separator, not exactly
  one; the remaining separators each become \<open>-\<close>, so the result holds no separator.
  For a path that does not start with two separators this is the mapping the
  specification describes, and \<open>/main/feature-x\<close> maps to \<open>main-feature-x\<close>. The
  mapping is a function of the path alone.
\<close>

theorem branch_name_mapping:
  "git_branch_name b =
     map (\<lambda>c. if c = CHR ''/'' then CHR ''-'' else c) (dropWhile (\<lambda>c. c = CHR ''/'') b)
   \<and> (take 2 b \<noteq> ''//'' \<longrightarrow> git_branch_name b = spec_branch_name b)
   \<and> CHR ''/'' \<notin> set (git_branch_name b)
   \<and> git_branch_name ''/main/feature-x'' = ''main-feature-x''"
proof -
  have same: "take 2 b \<noteq> ''//'' \<longrightarrow> git_branch_name b = spec_branch_name b"
  proof (cases b)
    case Nil
    then show ?thesis by (simp add: git_branch_name_def spec_branch_name_def lstrip_chars_def)
  next
    case outer: (Cons c r)
    show ?thesis
    proof (cases r)
      case Nil
      with outer show ?thesis
        by (simp add: git_branch_name_def spec_branch_name_def lstrip_chars_def)
    next
      case (Cons d r')
      with outer show ?thesis
        by (auto simp: git_branch_name_def spec_branch_name_def lstrip_chars_def)
    qed
  qed
  have example: "git_branch_name ''/main/feature-x'' = ''main-feature-x''"
    unfolding git_branch_name_map by simp
  from same example git_branch_name_map git_branch_name_no_separator show ?thesis by blast
qed

theorem branch_name_mapping_witness:
  "take 2 ''/release/1.0/hotfix'' \<noteq> ''//''
   \<and> git_branch_name ''/release/1.0/hotfix'' = ''release-1.0-hotfix''
   \<and> spec_branch_name ''/release/1.0/hotfix'' = ''release-1.0-hotfix''"
  using branch_name_mapping [of "''/release/1.0/hotfix''"]
  by (simp add: spec_branch_name_def replace_char_def)

text \<open>
  C5 as stated fails on a path with two leading separators: the code strips both,
  stripping exactly one leaves a separator that becomes a leading \<open>-\<close>.
\<close>

theorem branch_name_counterexample:
  "git_branch_name ''//main'' = ''main'' \<and> spec_branch_name ''//main'' = ''-main''"
  by (simp add: git_branch_name_def spec_branch_name_def replace_char_def lstrip_chars_def)

section \<open>The history reader\<close>

lemma map_err_Inr:
  "map_err f xs = Inr ys \<Longrightarrow> ys = map (\<lambda>x. projr (f x)) xs \<and> (\<forall>x\<in>set xs. \<not> isl (f x))"
  by (induction xs arbitrary: ys) (auto split: sum.splits)

lemma map_err_all:
  "(\<forall>x\<in>set xs. \<not> isl (f x)) \<Longrightarrow> map_err f xs = Inr (map (\<lambda>x. projr (f x)) xs)"
  by (induction xs) (auto split: sum.splits)

text \<open>
  C6. The document \<open>doc_no_changes\<close> holds one changeset record without a \<open>Changes\<close>
  section. \<open>parse_xml_history\<close> calls \<open>findall\<close> on the \<open>None\<close> that \<open>find('Changes')\<close>
  returns: AttributeError, which ends \<open>migrate_history\<close>. \<open>parse_history\<close> guards the
  same lookup with \<open>or []\<close> and parses the record.
\<close>

theorem missing_changes_section_raises:
  "parse_xml_history doc_no_changes = Inl AttributeError
   \<and> fst (migrate_history (sample_env all_ok) doc_no_changes) = Some AttributeError
   \<and> parse_history doc_no_changes =
       Inr [\<lparr>s_id = 7, s_branch = Some ''/main'', s_comment = ''Update (changeset 7)'',
             s_date = Some ''2024-01-01''\<rparr>]"
  by code_simp

section \<open>Properties of the commit messages\<close>

lemma map_of_tally_bump:
  "map_of (tally_bump k t) k' = (if k' = k then Some (Suc (case map_of t k of None \<Rightarrow> 0 | Some n \<Rightarrow> n)) else map_of t k')"
  by (simp add: tally_bump_def update_conv')

lemma tally_bump_not_Nil: "tally_bump k t \<noteq> []"
  by (cases t) (auto simp: tally_bump_def)

lemma foldl_tally_lookup:
  "(case map_of (foldl (\<lambda>t k. tally_bump k t) t0 tys) k of None \<Rightarrow> 0 | Some n \<Rightarrow> n)
     = (case map_of t0 k of None \<Rightarrow> 0 | Some n \<Rightarrow> n) + length (filter (\<lambda>t. t = k) tys)"
  by (induction tys arbitrary: t0) (auto simp: map_of_tally_bump)

lemma tally_get_count: "tally_get (tally_types tys) ty = count_type ty tys"
  using foldl_tally_lookup [of "[]" tys "Some ty"]
  by (simp add: tally_get_def tally_types_def count_type_def)

lemma foldl_tally_not_Nil: "t0 \<noteq> [] \<Longrightarrow> foldl (\<lambda>t k. tally_bump k t) t0 tys \<noteq> []"
  by (induction tys arbitrary: t0) (auto simp: tally_bump_not_Nil)

lemma tally_types_Nil_iff: "tally_types tys = [] \<longleftrightarrow> tys = []"
  by (cases tys) (auto simp: tally_types_def foldl_tally_not_Nil tally_bump_not_Nil)

lemma message_parts_spec:
  "join '', '' (message_parts (tally_types tys)) = spec_message tys"
  by (simp add: message_parts_def spec_message_def spec_part_def tally_get_count)

lemma generate_spec:
  "strip (comment cs) = [] \<Longrightarrow> changes cs \<noteq> [] \<Longrightarrow>
   generate_commit_message cs = spec_message (map change_type (changes cs))"
  by (simp add: generate_commit_message_def Let_def tally_types_Nil_iff message_parts_spec)

section \<open>What a run does\<close>

subsection \<open>migrate_plastic_to_git.py\<close>

lemma commands_append [simp]: "commands (a @ b) = commands a @ commands b"
  by (simp add: commands_def)

lemma commands_simps [simp]:
  "commands [] = []"
  "commands (Run c # tr) = c # commands tr"
  "commands (Print s # tr) = commands tr"
  "commands (PrintInline s # tr) = commands tr"
  "commands (MakeDirs s # tr) = commands tr"
  "commands (WriteFile s b # tr) = commands tr"
  "commands (Remove s # tr) = commands tr"
  by (simp_all add: commands_def)

lemma run_command_commands:
  "run_command E tr c cap = (r, tr1) \<Longrightarrow> commands tr1 = commands tr @ [c]"
  by (auto simp: run_command_def split: proc_result.splits)

lemma run_cmd_commands:
  "run_cmd E tr c cap = (r, tr1) \<Longrightarrow> commands tr1 = commands tr @ [c]"
  by (auto simp: run_cmd_def split: proc_result.splits)

lemma run_command_code:
  "run_command E tr c cap = (r, tr1) \<Longrightarrow> (snd r \<noteq> 0) = failed (subprocess_run E tr c)"
  by (auto simp: run_command_def failed_def split: proc_result.splits)

lemma get_or_create_branch_commands:
  "get_or_create_branch E tr g = (x, tr1) \<Longrightarrow>
   commands tr1 = commands tr @
      [''git rev-parse --verify '' @ git_branch_name g @ '' 2>nul'',
       (if failed (subprocess_run E tr (''git rev-parse --verify '' @ git_branch_name g @ '' 2>nul''))
        then ''git checkout -b '' @ git_branch_name g else ''git checkout '' @ git_branch_name g)]"
  by (auto simp: get_or_create_branch_def Let_def run_command_code split: prod.splits if_splits
           dest!: run_command_commands)

lemma create_git_commit_commands:
  "create_git_commit E tr m d e n = (ok, tr1) \<Longrightarrow>
   commands tr1 = commands tr @ [''git add -A'', commit_cmd m d e n]"
  by (auto simp: create_git_commit_def Let_def split: prod.splits dest!: run_command_commands)

lemma process_file_commit_attempts:
  "process_file E tr job = (r, tr1) \<Longrightarrow> commit_attempts tr1 = commit_attempts tr"
  by (auto simp: process_file_def Let_def commit_attempts_def cat_cmd_def split: prod.splits if_splits option.splits
           dest!: run_command_commands)

lemma process_files_commit_attempts:
  "process_files E tr jobs = (r, tr1) \<Longrightarrow> commit_attempts tr1 = commit_attempts tr"
proof (induction jobs arbitrary: tr)
  case Nil
  then show ?case by simp
next
  case (Cons job jobs)
  then show ?case
    by (auto split: prod.splits option.splits dest: process_file_commit_attempts)
qed

lemma commit_attempts_append [simp]: "commit_attempts (a @ b) = commit_attempts a @ commit_attempts b"
  by (simp add: commit_attempts_def)

lemma branch_commands_append [simp]: "branch_commands (a @ b) = branch_commands a @ branch_commands b"
  by (simp add: branch_commands_def)

lemma take_commit_cmd: "take 7 (commit_cmd m d e n) = ''git -c ''" "take 14 (commit_cmd m d e n) = ''git -c user.em''"
   "take 13 (commit_cmd m d e n) = ''git -c user.e''"
  by (simp_all add: commit_cmd_def)

lemma get_or_create_branch_commit_attempts:
  "get_or_create_branch E tr g = (x, tr1) \<Longrightarrow> commit_attempts tr1 = commit_attempts tr"
  by (drule get_or_create_branch_commands) (simp add: commit_attempts_def)

lemma create_git_commit_commit_attempts:
  "create_git_commit E tr m d e n = (ok, tr1) \<Longrightarrow>
   commit_attempts tr1 = commit_attempts tr @ [commit_cmd m d e n]"
  by (drule create_git_commit_commands) (simp add: commit_attempts_def take_commit_cmd)

lemma migrate_step_commit_attempts:
  assumes "migrate_step E n i cs L tr = (Inr L1, tr1)"
  shows "commit_attempts tr1 = commit_attempts tr @
           [commit_cmd (generate_commit_message cs) (date_str cs) GIT_AUTHOR_EMAIL GIT_AUTHOR_NAME]"
  using assms
  by (auto simp: migrate_step_def Let_def apply_changeset_files_def commit_attempts_def[of "[_]"]
           split: option.splits prod.splits if_splits
           dest!: get_or_create_branch_commit_attempts create_git_commit_commit_attempts
                  process_files_commit_attempts)

lemma migrate_step_locals:
  assumes "migrate_step E n i cs L tr = (Inr L1, tr1)"
  shows "\<exists>b. branch cs = Some b \<and> current_branch L1 = Some (git_branch_name b) \<and>
             git_branches L1 = (if Some (git_branch_name b) \<noteq> current_branch L
                                then insert (git_branch_name b) (git_branches L) else git_branches L)"
  using assms
  by (auto simp: migrate_step_def Let_def split: option.splits prod.splits if_splits)

lemma migrate_loop_commit_attempts:
  "migrate_loop E n i css L tr = (Inr L1, tr1) \<Longrightarrow>
   commit_attempts tr1 = commit_attempts tr @
     map (\<lambda>cs. commit_cmd (generate_commit_message cs) (date_str cs) GIT_AUTHOR_EMAIL GIT_AUTHOR_NAME) css"
proof (induction css arbitrary: i L tr)
  case Nil
  then show ?case by simp
next
  case (Cons cs css)
  then show ?case
    by (auto split: prod.splits sum.splits dest!: migrate_step_commit_attempts)
qed

lemma process_file_branch_commands:
  "process_file E tr job = (r, tr1) \<Longrightarrow> branch_commands tr1 = branch_commands tr"
  by (auto simp: process_file_def Let_def branch_commands_def cat_cmd_def split: prod.splits if_splits option.splits
           dest!: run_command_commands)

lemma process_files_branch_commands:
  "process_files E tr jobs = (r, tr1) \<Longrightarrow> branch_commands tr1 = branch_commands tr"
proof (induction jobs arbitrary: tr)
  case Nil
  then show ?case by simp
next
  case (Cons job jobs)
  then show ?case
    by (auto split: prod.splits option.splits dest: process_file_branch_commands)
qed

lemma create_git_commit_branch_commands:
  "create_git_commit E tr m d e n = (ok, tr1) \<Longrightarrow> branch_commands tr1 = branch_commands tr"
  by (drule create_git_commit_commands) (simp add: branch_commands_def take_commit_cmd)

lemma get_or_create_branch_branch_commands:
  "get_or_create_branch E tr g = (x, tr1) \<Longrightarrow>
   branch_commands tr1 = branch_commands tr @
      [''git rev-parse --verify '' @ git_branch_name g @ '' 2>nul'',
       (if failed (subprocess_run E tr (''git rev-parse --verify '' @ git_branch_name g @ '' 2>nul''))
        then ''git checkout -b '' @ git_branch_name g else ''git checkout '' @ git_branch_name g)]"
  by (drule get_or_create_branch_commands) (simp add: branch_commands_def)

lemma migrate_step_branch_commands:
  assumes "migrate_step E n i cs L tr = (r, tr1)" "branch cs = Some b"
  shows "branch_commands tr1 = branch_commands tr @
           (if Some (git_branch_name b) \<noteq> current_branch L then
              [''git rev-parse --verify '' @ git_branch_name b @ '' 2>nul'',
               (if failed (subprocess_run E (tr @ [PrintInline (progress_line (i + 1) n (cs_id cs) (take 40 b))])
                             (''git rev-parse --verify '' @ git_branch_name b @ '' 2>nul''))
                then ''git checkout -b '' @ git_branch_name b else ''git checkout '' @ git_branch_name b)]
            else [])"
  using assms
  by (auto simp: migrate_step_def Let_def apply_changeset_files_def branch_commands_def[of "[_]"]
                 git_branch_name_idem
           split: option.splits prod.splits if_splits
           dest!: get_or_create_branch_branch_commands create_git_commit_branch_commands
                  process_files_branch_commands)

lemma migrate_loop_branches:
  "migrate_loop E n i css L tr = (Inr L1, tr1) \<Longrightarrow>
   (\<forall>g. current_branch L = Some g \<longrightarrow> g \<in> git_branches L) \<Longrightarrow>
   git_branches L1 = git_branches L \<union> {git_branch_name b | b cs. cs \<in> set css \<and> branch cs = Some b}
   \<and> (\<forall>g. current_branch L1 = Some g \<longrightarrow> g \<in> git_branches L1)
   \<and> (\<forall>cs \<in> set css. branch cs \<noteq> None)"
proof (induction css arbitrary: i L tr)
  case Nil
  then show ?case by simp
next
  case (Cons cs css)
  from Cons.prems(1) obtain L0 tr0 where
    step: "migrate_step E n i cs L tr = (Inr L0, tr0)" and
    rest: "migrate_loop E n (Suc i) css L0 tr0 = (Inr L1, tr1)"
    by (auto split: prod.splits sum.splits)
  from migrate_step_locals [OF step] obtain b where
    b: "branch cs = Some b" "current_branch L0 = Some (git_branch_name b)"
       "git_branches L0 = (if Some (git_branch_name b) \<noteq> current_branch L
                           then insert (git_branch_name b) (git_branches L) else git_branches L)"
    by blast
  have inv0: "\<forall>g. current_branch L0 = Some g \<longrightarrow> g \<in> git_branches L0"
    using b Cons.prems(2) by auto
  have gb0: "git_branches L0 = insert (git_branch_name b) (git_branches L)"
    using b Cons.prems(2) by auto
  from Cons.IH [OF rest inv0] gb0 b(1) show ?case by auto
qed

lemma process_file_commands_mono:
  "process_file E tr job = (r, tr1) \<Longrightarrow> set (commands tr) \<subseteq> set (commands tr1)"
  by (auto simp: process_file_def Let_def split: prod.splits if_splits option.splits
           dest!: run_command_commands)

lemma process_files_commands_mono:
  "process_files E tr jobs = (r, tr1) \<Longrightarrow> set (commands tr) \<subseteq> set (commands tr1)"
proof (induction jobs arbitrary: tr)
  case Nil
  then show ?case by simp
next
  case (Cons job jobs)
  then show ?case
    by (fastforce split: prod.splits option.splits dest: process_file_commands_mono)
qed

lemma process_file_cat:
  "process_file E tr (''add_or_update'', p, i) = (r, tr1) \<Longrightarrow> cat_cmd p i \<in> set (commands tr1)"
  by (auto simp: process_file_def Let_def split: prod.splits if_splits option.splits
           dest!: run_command_commands)

lemma process_files_cat:
  "process_files E tr jobs = (r, tr1) \<Longrightarrow> r = None \<Longrightarrow> (''add_or_update'', p, i) \<in> set jobs \<Longrightarrow>
   cat_cmd p i \<in> set (commands tr1)"
proof (induction jobs arbitrary: tr)
  case Nil
  then show ?case by simp
next
  case (Cons job jobs)
  obtain r0 t0 where pf: "process_file E tr job = (r0, t0)" by (cases "process_file E tr job")
  with Cons.prems have r0: "r0 = None" and rest: "process_files E t0 jobs = (r, tr1)"
    by (auto split: option.splits)
  show ?case
  proof (cases "job = (''add_or_update'', p, i)")
    case True
    with pf have "cat_cmd p i \<in> set (commands t0)" by (auto dest: process_file_cat)
    with process_files_commands_mono [OF rest] show ?thesis by blast
  next
    case False
    with Cons.prems(3) have "(''add_or_update'', p, i) \<in> set jobs" by simp
    from Cons.IH [OF rest Cons.prems(2) this] show ?thesis .
  qed
qed

lemma files_to_process_add:
  "c \<in> set (changes cs) \<Longrightarrow> change_type c = Some ''Added'' \<or> change_type c = Some ''Changed'' \<Longrightarrow>
   (''add_or_update'', dst_path c, i) \<in> set (files_to_process cs i)"
  by (auto simp: files_to_process_def)

lemma migrate_step_Inr:
  assumes "migrate_step E n i cs L tr = (Inr L1, tr1)"
  obtains b ta tb tc ok where
    "branch cs = Some b"
    "apply_changeset_files E ta cs (cs_id cs) = (None, tb)"
    "create_git_commit E tb (generate_commit_message cs) (date_str cs) GIT_AUTHOR_EMAIL GIT_AUTHOR_NAME = (ok, tc)"
    "tr1 = tc @ [Print (if ok then check_mark else cross_mark @ '' commit failed'')]"
proof -
  from assms obtain b where b: "branch cs = Some b"
    by (auto simp: migrate_step_def split: option.splits)
  let ?tr0 = "tr @ [PrintInline (progress_line (i + 1) n (cs_id cs) (take 40 b))]"
  define ta where "ta = (if Some (git_branch_name b) \<noteq> current_branch L
                         then snd (get_or_create_branch E ?tr0 (git_branch_name b)) else ?tr0)"
  obtain ra tb where ap: "apply_changeset_files E ta cs (cs_id cs) = (ra, tb)"
    by (cases "apply_changeset_files E ta cs (cs_id cs)")
  obtain ok tc where cm: "create_git_commit E tb (generate_commit_message cs) (date_str cs)
                            GIT_AUTHOR_EMAIL GIT_AUTHOR_NAME = (ok, tc)"
    by (cases "create_git_commit E tb (generate_commit_message cs) (date_str cs) GIT_AUTHOR_EMAIL GIT_AUTHOR_NAME")
  from assms b ap have ra: "ra = None"
    by (cases ra) (auto simp: migrate_step_def Let_def ta_def split: prod.splits if_splits)
  from assms b ap cm ra have "tr1 = tc @ [Print (if ok then check_mark else cross_mark @ '' commit failed'')]"
    by (auto simp: migrate_step_def Let_def ta_def split: prod.splits if_splits)
  with b ap ra cm that show thesis by blast
qed

lemma migrate_step_reconciles:
  assumes "migrate_step E n i cs L tr = (Inr L1, tr1)"
      and "c \<in> set (changes cs)" "change_type c = Some ''Added'' \<or> change_type c = Some ''Changed''"
  shows "cat_cmd (dst_path c) (cs_id cs) \<in> set (commands tr1)"
proof -
  from assms(1) obtain b ta tb tc ok where
    ap: "apply_changeset_files E ta cs (cs_id cs) = (None, tb)" and
    cm: "create_git_commit E tb (generate_commit_message cs) (date_str cs) GIT_AUTHOR_EMAIL GIT_AUTHOR_NAME = (ok, tc)" and
    t1: "tr1 = tc @ [Print (if ok then check_mark else cross_mark @ '' commit failed'')]"
    by (rule migrate_step_Inr)
  from ap files_to_process_add [OF assms(2,3)] have "cat_cmd (dst_path c) (cs_id cs) \<in> set (commands tb)"
    unfolding apply_changeset_files_def by (auto dest: process_files_cat)
  with create_git_commit_commands [OF cm] t1 show ?thesis by simp
qed

lemma create_git_commit_ok:
  "create_git_commit E tr m d e n = (ok, tr1) \<Longrightarrow>
   \<forall>t c. take 7 c = ''git -c '' \<longrightarrow> \<not> failed (subprocess_run E t c) \<Longrightarrow> ok"
  by (auto simp: create_git_commit_def Let_def take_commit_cmd split: prod.splits dest!: run_command_code)

lemma migrate_step_mark:
  assumes "migrate_step E n i cs L tr = (Inr L1, tr1)"
      and "\<forall>t c. take 7 c = ''git -c '' \<longrightarrow> \<not> failed (subprocess_run E t c)"
  shows "last tr1 = Print check_mark"
proof -
  from assms(1) obtain b ta tb tc ok where
    cm: "create_git_commit E tb (generate_commit_message cs) (date_str cs) GIT_AUTHOR_EMAIL GIT_AUTHOR_NAME = (ok, tc)" and
    t1: "tr1 = tc @ [Print (if ok then check_mark else cross_mark @ '' commit failed'')]"
    by (rule migrate_step_Inr)
  from create_git_commit_ok [OF cm assms(2)] t1 show ?thesis by simp
qed

subsection \<open>migrate_simple.py\<close>

lemma run_cmd_code:
  "run_cmd E tr c cap = (r, tr1) \<Longrightarrow> (snd r \<noteq> 0) = failed (subprocess_run E tr c)"
  by (auto simp: run_cmd_def failed_def split: proc_result.splits)

lemma take_simple_commit_cmd:
  "take 7 (simple_commit_cmd cs) = ''git -c ''"
  "take 14 (simple_commit_cmd cs) = ''git -c user.em''"
  "take 13 (simple_commit_cmd cs) = ''git -c user.e''"
  by (simp_all add: simple_commit_cmd_def Let_def)

lemma simple_step_skip:
  assumes "failed (subprocess_run E (tr @ [PrintInline (simple_progress_line (i + 1) n (s_id cs))])
                     (''cm switch cs:'' @ str_int (s_id cs)))"
      and "simple_step E n i cs L tr = (r, tr1)"
  shows "r = Inr L \<and> commands tr1 = commands tr @ [''cm switch cs:'' @ str_int (s_id cs)]"
proof -
  obtain r0 t0 where sw: "run_cmd E (tr @ [PrintInline (simple_progress_line (i + 1) n (s_id cs))])
                     (''cm switch cs:'' @ str_int (s_id cs)) False = (r0, t0)"
    by (cases "run_cmd E (tr @ [PrintInline (simple_progress_line (i + 1) n (s_id cs))])
                     (''cm switch cs:'' @ str_int (s_id cs)) False")
  from run_cmd_code [OF sw] assms(1) have f: "snd r0 \<noteq> 0" by simp
  from run_cmd_commands [OF sw] have c: "commands t0 = commands tr @ [''cm switch cs:'' @ str_int (s_id cs)]"
    by simp
  from assms(2) sw f have "r = Inr L" "tr1 = t0 @ [Print ''X switch failed'']"
    by (simp_all add: simple_step_def Let_def)
  with c show ?thesis by simp
qed

lemma simple_switch_branch_props:
  assumes "simple_switch_branch E L tr g = (L1, tr1)"
  shows "s_current_branch L1 = Some g"
    and "s_git_branches L1 = (if Some g \<noteq> s_current_branch L then insert g (s_git_branches L) else s_git_branches L)"
    and "success_count L1 = success_count L"
    and "commands tr1 = commands tr @
           (if Some g \<noteq> s_current_branch L then
              [''git rev-parse --verify '' @ g @ '' 2>nul'',
               (if failed (subprocess_run E tr (''git rev-parse --verify '' @ g @ '' 2>nul''))
                then ''git checkout -b '' @ g else ''git checkout '' @ g)]
            else [])"
  using assms
  by (auto simp: simple_switch_branch_def Let_def run_cmd_code split: prod.splits if_splits
           dest!: run_cmd_commands)

lemma simple_step_commands:
  assumes ok: "\<not> failed (subprocess_run E (tr @ [PrintInline (simple_progress_line (i + 1) n (s_id cs))])
                     (''cm switch cs:'' @ str_int (s_id cs)))"
      and step: "simple_step E n i cs L tr = (Inr L1, tr1)"
  shows "\<exists>b t. s_branch cs = Some b
     \<and> s_current_branch L1 = Some (git_branch_name b)
     \<and> s_git_branches L1 = (if Some (git_branch_name b) \<noteq> s_current_branch L
                             then insert (git_branch_name b) (s_git_branches L) else s_git_branches L)
     \<and> commands tr1 = commands tr @ [''cm switch cs:'' @ str_int (s_id cs)]
          @ (if Some (git_branch_name b) \<noteq> s_current_branch L then
              [''git rev-parse --verify '' @ git_branch_name b @ '' 2>nul'',
               (if failed (subprocess_run E t (''git rev-parse --verify '' @ git_branch_name b @ '' 2>nul''))
                then ''git checkout -b '' @ git_branch_name b else ''git checkout '' @ git_branch_name b)]
            else [])
          @ [''git add -A'', simple_commit_cmd cs]"
proof -
  let ?tr0 = "tr @ [PrintInline (simple_progress_line (i + 1) n (s_id cs))]"
  let ?sw = "''cm switch cs:'' @ str_int (s_id cs)"
  obtain r0 t0 where sw: "run_cmd E ?tr0 ?sw False = (r0, t0)"
    by (cases "run_cmd E ?tr0 ?sw False")
  from run_cmd_code [OF sw] ok have z: "snd r0 = 0" by simp
  from run_cmd_commands [OF sw] have c0: "commands t0 = commands tr @ [?sw]" by simp
  from step sw z obtain b where b: "s_branch cs = Some b"
    by (cases "s_branch cs") (auto simp: simple_step_def Let_def)
  obtain L2 t2 where ph: "simple_switch_branch E L t0 (git_branch_name b) = (L2, t2)"
    by (cases "simple_switch_branch E L t0 (git_branch_name b)")
  obtain r3 t3 where add: "run_cmd E t2 ''git add -A'' False = (r3, t3)"
    by (cases "run_cmd E t2 ''git add -A'' False")
  obtain r4 t4 where com: "run_cmd E t3 (simple_commit_cmd cs) False = (r4, t4)"
    by (cases "run_cmd E t3 (simple_commit_cmd cs) False")
  from step sw z b ph add com have res:
    "L1 = (if snd r4 = 0 then L2\<lparr>success_count := success_count L2 + 1\<rparr> else L2)"
    "tr1 = t4 @ [Print (if snd r4 = 0 then ''OK'' else ''FAIL'')]"
    by (auto simp: simple_step_def Let_def split: if_splits)
  note pp = simple_switch_branch_props [OF ph]
  have "commands tr1 = commands t2 @ [''git add -A'', simple_commit_cmd cs]"
    using res(2) run_cmd_commands [OF add] run_cmd_commands [OF com] by simp
  with pp(4) c0 have "commands tr1 = commands tr @ [?sw]
          @ (if Some (git_branch_name b) \<noteq> s_current_branch L then
              [''git rev-parse --verify '' @ git_branch_name b @ '' 2>nul'',
               (if failed (subprocess_run E t0 (''git rev-parse --verify '' @ git_branch_name b @ '' 2>nul''))
                then ''git checkout -b '' @ git_branch_name b else ''git checkout '' @ git_branch_name b)]
            else [])
          @ [''git add -A'', simple_commit_cmd cs]"
    by simp
  moreover have "s_current_branch L1 = Some (git_branch_name b)"
    using res(1) pp(1) by simp
  moreover have "s_git_branches L1 = (if Some (git_branch_name b) \<noteq> s_current_branch L
                             then insert (git_branch_name b) (s_git_branches L) else s_git_branches L)"
    using res(1) pp(2) by simp
  ultimately show ?thesis using b by blast
qed

subsection \<open>Whole runs\<close>

lemma mapped_branches_eq:
  "mapped_branches css = {git_branch_name b | b cs. cs \<in> set css \<and> branch cs = Some b}"
  by (force simp: mapped_branches_def split: option.splits)

lemma simple_mapped_branches_eq:
  "simple_mapped_branches css = {git_branch_name b | b cs. cs \<in> set css \<and> s_branch cs = Some b}"
  by (force simp: simple_mapped_branches_def split: option.splits)

lemma commands_summary_lines [simp]: "commands (summary_lines n L) = []"
  by (simp add: summary_lines_def)

lemma migrate_history_run:
  assumes "migrate_history E root = (None, tr)"
  shows "\<exists>css L. parse_xml_history root = Inr css \<and> css \<noteq> []
           \<and> commit_attempts tr = map commit_of css
           \<and> git_branches L = mapped_branches css
           \<and> set (summary_lines (length css) L) \<subseteq> set tr"
proof -
  from assms obtain css where p: "parse_xml_history root = Inr css"
    by (cases "parse_xml_history root") (auto simp: migrate_history_def)
  from assms p have ne: "css \<noteq> []"
    by (cases css) (auto simp: migrate_history_def)
  define tr1 where "tr1 = [Print ''Parsing Plastic SCM history...'',
      Print (''Found '' @ str_nat (length css) @ '' changesets (IDs: ''
                                  @ str_int (cs_id (hd css)) @ '' to ''
                                  @ str_int (cs_id (last css)) @ '')'' @ [newline]),
                          Print (''Starting migration...'' @ [newline])]"
  obtain r tr2 where lp: "migrate_loop E (length css) 0 css \<lparr>current_branch = None, git_branches = {}\<rparr> tr1 = (r, tr2)"
    by (cases "migrate_loop E (length css) 0 css \<lparr>current_branch = None, git_branches = {}\<rparr> tr1")
  from assms p ne lp obtain L where r: "r = Inr L"
    by (cases css; cases r) (auto simp: migrate_history_def Let_def tr1_def)
  obtain rb tr3 where br: "run_command E (tr2 @ summary_lines (length css) L) ''git branch -a'' False = (rb, tr3)"
    by (cases "run_command E (tr2 @ summary_lines (length css) L) ''git branch -a'' False")
  from assms p ne lp r br have tr: "tr = tr3"
    by (cases css) (auto simp: migrate_history_def Let_def tr1_def)
  have c3: "commands tr3 = commands tr2 @ [''git branch -a'']"
    using run_command_commands [OF br] by simp
  have "commit_attempts tr2 = map commit_of css"
    using migrate_loop_commit_attempts [OF lp [unfolded r]]
    by (simp add: tr1_def commit_attempts_def commit_of_def)
  then have ca: "commit_attempts tr = map commit_of css"
    using c3 tr by (simp add: commit_attempts_def)
  have gb: "git_branches L = mapped_branches css"
    using migrate_loop_branches [OF lp [unfolded r]] by (simp add: mapped_branches_eq)
  have "set (tr2 @ summary_lines (length css) L) \<subseteq> set tr3"
    using br by (auto simp: run_command_def split: proc_result.splits)
  then have "set (summary_lines (length css) L) \<subseteq> set tr" using tr by simp
  with p ne ca gb show ?thesis by blast
qed

lemma simple_loop_run:
  assumes "simple_loop E n i css L tr = (Inr L1, tr1)"
      and "\<forall>t c. take 10 c = ''cm switch '' \<longrightarrow> \<not> failed (subprocess_run E t c)"
      and "\<forall>g. s_current_branch L = Some g \<longrightarrow> g \<in> s_git_branches L"
  shows "commit_attempts tr1 = commit_attempts tr @ map simple_commit_cmd css
       \<and> s_git_branches L1 = s_git_branches L \<union> {git_branch_name b | b cs. cs \<in> set css \<and> s_branch cs = Some b}
       \<and> (\<forall>g. s_current_branch L1 = Some g \<longrightarrow> g \<in> s_git_branches L1)"
  using assms(1,3)
proof (induction css arbitrary: i L tr)
  case Nil
  then show ?case by simp
next
  case (Cons cs css)
  from Cons.prems(1) obtain L0 tr0 where
    step: "simple_step E n i cs L tr = (Inr L0, tr0)" and
    rest: "simple_loop E n (Suc i) css L0 tr0 = (Inr L1, tr1)"
    by (auto split: prod.splits sum.splits)
  have ok: "\<not> failed (subprocess_run E (tr @ [PrintInline (simple_progress_line (i + 1) n (s_id cs))])
                     (''cm switch cs:'' @ str_int (s_id cs)))"
    using assms(2) by simp
  from simple_step_commands [OF ok step] obtain b t where
    b: "s_branch cs = Some b" "s_current_branch L0 = Some (git_branch_name b)"
       "s_git_branches L0 = (if Some (git_branch_name b) \<noteq> s_current_branch L
                             then insert (git_branch_name b) (s_git_branches L) else s_git_branches L)"
       "commands tr0 = commands tr @ [''cm switch cs:'' @ str_int (s_id cs)]
          @ (if Some (git_branch_name b) \<noteq> s_current_branch L then
              [''git rev-parse --verify '' @ git_branch_name b @ '' 2>nul'',
               (if failed (subprocess_run E t (''git rev-parse --verify '' @ git_branch_name b @ '' 2>nul''))
                then ''git checkout -b '' @ git_branch_name b else ''git checkout '' @ git_branch_name b)]
            else [])
          @ [''git add -A'', simple_commit_cmd cs]"
    by blast
  have ca0: "commit_attempts tr0 = commit_attempts tr @ [simple_commit_cmd cs]"
    using b(4) by (simp add: commit_attempts_def take_simple_commit_cmd)
  have inv0: "\<forall>g. s_current_branch L0 = Some g \<longrightarrow> g \<in> s_git_branches L0"
    using b Cons.prems(2) by auto
  have gb0: "s_git_branches L0 = insert (git_branch_name b) (s_git_branches L)"
    using b Cons.prems(2) by auto
  from Cons.IH [OF rest inv0] ca0 gb0 b(1) show ?case by auto
qed

lemma migrate_step_Inl:
  assumes "migrate_step E n i cs L tr = (Inl e, tr1)"
  shows "commit_attempts tr1 = commit_attempts tr"
proof (cases "branch cs")
  case None
  with assms show ?thesis by (simp add: migrate_step_def)
next
  case (Some b)
  let ?tr0 = "tr @ [PrintInline (progress_line (i + 1) n (cs_id cs) (take 40 b))]"
  define ta where "ta = (if Some (git_branch_name b) \<noteq> current_branch L
                         then snd (get_or_create_branch E ?tr0 (git_branch_name b)) else ?tr0)"
  have ca: "commit_attempts ta = commit_attempts tr"
    using get_or_create_branch_commit_attempts [of E ?tr0 "git_branch_name b"]
    by (cases "get_or_create_branch E ?tr0 (git_branch_name b)") (auto simp: ta_def commit_attempts_def[of "[_]"])
  obtain ra tb where ap: "apply_changeset_files E ta cs (cs_id cs) = (ra, tb)"
    by (cases "apply_changeset_files E ta cs (cs_id cs)")
  from assms Some ap have "tr1 = tb"
    by (cases ra) (auto simp: migrate_step_def Let_def ta_def split: prod.splits if_splits)
  moreover from ap have "commit_attempts tb = commit_attempts ta"
    unfolding apply_changeset_files_def by (rule process_files_commit_attempts)
  ultimately show ?thesis using ca by simp
qed

lemma migrate_loop_prefix:
  "migrate_loop E n i css L tr = (r, tr1) \<Longrightarrow>
   \<exists>k\<le>length css. commit_attempts tr1 = commit_attempts tr @ map commit_of (take k css)
        \<and> (\<not> isl r \<longrightarrow> k = length css)"
proof (induction css arbitrary: i L tr)
  case Nil
  then show ?case by auto
next
  case (Cons cs css)
  obtain r0 t0 where step: "migrate_step E n i cs L tr = (r0, t0)"
    by (cases "migrate_step E n i cs L tr")
  show ?case
  proof (cases r0)
    case (Inl e)
    with step Cons.prems have "r = Inl e" "tr1 = t0" by auto
    with migrate_step_Inl step Inl have "commit_attempts tr1 = commit_attempts tr @ map commit_of (take 0 (cs # css)) \<and> (\<not> isl r \<longrightarrow> 0 = length (cs # css))"
      by auto
    then show ?thesis by blast
  next
    case (Inr L0)
    with step Cons.prems have rest: "migrate_loop E n (Suc i) css L0 t0 = (r, tr1)" by auto
    from Cons.IH [OF rest] obtain k where k: "k \<le> length css"
      "commit_attempts tr1 = commit_attempts t0 @ map commit_of (take k css)" "\<not> isl r \<longrightarrow> k = length css"
      by blast
    from migrate_step_commit_attempts step Inr have "commit_attempts t0 = commit_attempts tr @ [commit_of cs]"
      by (auto simp: commit_of_def)
    with k have "Suc k \<le> length (cs # css) \<and> commit_attempts tr1 = commit_attempts tr @ map commit_of (take (Suc k) (cs # css))
         \<and> (\<not> isl r \<longrightarrow> Suc k = length (cs # css))" by simp
    then show ?thesis by blast
  qed
qed

lemma simple_step_commit_attempts:
  assumes "simple_step E n i cs L tr = (r, tr1)"
  shows "commit_attempts tr1 = commit_attempts tr \<or> commit_attempts tr1 = commit_attempts tr @ [simple_commit_cmd cs]"
proof -
  let ?tr0 = "tr @ [PrintInline (simple_progress_line (i + 1) n (s_id cs))]"
  let ?sw = "''cm switch cs:'' @ str_int (s_id cs)"
  show ?thesis
  proof (cases "failed (subprocess_run E ?tr0 ?sw)")
    case True
    from simple_step_skip [OF True assms] show ?thesis by (simp add: commit_attempts_def)
  next
    case False
    show ?thesis
    proof (cases r)
      case (Inr L1)
      from simple_step_commands [OF False assms [unfolded Inr]] show ?thesis
        by (auto simp: commit_attempts_def take_simple_commit_cmd)
    next
      case (Inl e)
      obtain r0 t0 where sw: "run_cmd E ?tr0 ?sw False = (r0, t0)"
        by (cases "run_cmd E ?tr0 ?sw False")
      from run_cmd_code [OF sw] False have z: "snd r0 = 0" by simp
      from assms Inl sw z have "tr1 = t0"
        by (cases "s_branch cs") (auto simp: simple_step_def Let_def split: prod.splits if_splits)
      with run_cmd_commands [OF sw] show ?thesis by (simp add: commit_attempts_def)
    qed
  qed
qed

lemma simple_loop_subseq:
  "simple_loop E n i css L tr = (r, tr1) \<Longrightarrow>
   \<exists>ys. subseq ys css \<and> commit_attempts tr1 = commit_attempts tr @ map simple_commit_cmd ys"
proof (induction css arbitrary: i L tr)
  case Nil
  then show ?case by auto
next
  case (Cons cs css)
  obtain r0 t0 where step: "simple_step E n i cs L tr = (r0, t0)"
    by (cases "simple_step E n i cs L tr")
  note sc = simple_step_commit_attempts [OF step]
  show ?case
  proof (cases r0)
    case (Inl e)
    with step Cons.prems have "tr1 = t0" by auto
    with sc have "commit_attempts tr1 = commit_attempts tr @ map simple_commit_cmd []
                \<or> commit_attempts tr1 = commit_attempts tr @ map simple_commit_cmd [cs]" by simp
    moreover have "subseq [] (cs # css)" "subseq [cs] (cs # css)" by auto
    ultimately show ?thesis by blast
  next
    case (Inr L0)
    with step Cons.prems have rest: "simple_loop E n (Suc i) css L0 t0 = (r, tr1)" by auto
    from Cons.IH [OF rest] obtain ys where ys: "subseq ys css"
      "commit_attempts tr1 = commit_attempts t0 @ map simple_commit_cmd ys" by blast
    from sc ys have "commit_attempts tr1 = commit_attempts tr @ map simple_commit_cmd ys
                \<or> commit_attempts tr1 = commit_attempts tr @ map simple_commit_cmd (cs # ys)" by auto
    moreover from ys(1) have "subseq ys (cs # css)" "subseq (cs # ys) (cs # css)" by auto
    ultimately show ?thesis by blast
  qed
qed

section \<open>Replay order\<close>

lemma map_err_perm:
  assumes "map_err f xs = Inr ys" "mset xs' = mset xs"
  shows "\<exists>ys'. map_err f xs' = Inr ys' \<and> mset ys' = mset ys"
proof -
  from assms(1) have ys: "ys = map (\<lambda>x. projr (f x)) xs" and ok: "\<forall>x\<in>set xs. \<not> isl (f x)"
    using map_err_Inr by blast+
  from assms(2) have "set xs' = set xs" by (rule mset_eq_setD)
  with ok have "map_err f xs' = Inr (map (\<lambda>x. projr (f x)) xs')" by (simp add: map_err_all)
  moreover have "mset (map (\<lambda>x. projr (f x)) xs') = mset ys"
    using assms(2) ys by (metis mset_map)
  ultimately show ?thesis by blast
qed

lemma sort_key_ids_perm:
  assumes "mset ys' = mset ys"
  shows "map k (sort_key k ys') = map k (sort_key k (ys :: 'a list))"
proof -
  have "mset (map k (sort_key k ys')) = mset (map k (sort_key k ys))"
    using assms by (metis mset_map mset_sort)
  moreover have "sorted (map k (sort_key k ys'))" "sorted (map k (sort_key k ys))" by simp_all
  ultimately show ?thesis
    using properties_for_sort by metis
qed

lemma sorted_distinct_strict: "sorted xs \<Longrightarrow> distinct xs \<Longrightarrow> sorted_wrt (<) (xs :: int list)"
  using strict_sorted_iff by blast

lemma parse_xml_history_sorted:
  assumes "parse_xml_history root = Inr css"
  shows "sorted (map cs_id css)"
  using assms by (auto simp: parse_xml_history_def split: sum.splits)

lemma parse_xml_history_perm:
  assumes "parse_xml_history root = Inr css"
      and "mset (elem_findall ''Changeset'' root') = mset (elem_findall ''Changeset'' root)"
  shows "\<exists>css'. parse_xml_history root' = Inr css' \<and> map cs_id css' = map cs_id css"
proof -
  from assms(1) obtain ys where ys: "map_err parse_changeset (elem_findall ''Changeset'' root) = Inr ys"
      and css: "css = sort_key cs_id ys"
    by (auto simp: parse_xml_history_def split: sum.splits)
  from map_err_perm [OF ys assms(2)] obtain ys' where
    ys': "map_err parse_changeset (elem_findall ''Changeset'' root') = Inr ys'" "mset ys' = mset ys"
    by blast
  then have "parse_xml_history root' = Inr (sort_key cs_id ys')"
    by (simp add: parse_xml_history_def)
  with sort_key_ids_perm [OF ys'(2)] css show ?thesis by blast
qed

lemma parse_history_sorted:
  assumes "parse_history root = Inr scs"
  shows "sorted (map s_id scs)"
  using assms by (auto simp: parse_history_def split: sum.splits)

lemma parse_history_perm:
  assumes "parse_history root = Inr scs"
      and "mset (elem_findall ''Changeset'' root') = mset (elem_findall ''Changeset'' root)"
  shows "\<exists>scs'. parse_history root' = Inr scs' \<and> map s_id scs' = map s_id scs"
proof -
  from assms(1) obtain ys where ys: "map_err simple_parse_changeset (elem_findall ''Changeset'' root) = Inr ys"
      and scs: "scs = sort_key s_id ys"
    by (auto simp: parse_history_def split: sum.splits)
  from map_err_perm [OF ys assms(2)] obtain ys' where
    ys': "map_err simple_parse_changeset (elem_findall ''Changeset'' root') = Inr ys'" "mset ys' = mset ys"
    by blast
  then have "parse_history root' = Inr (sort_key s_id ys')"
    by (simp add: parse_history_def)
  with sort_key_ids_perm [OF ys'(2)] scs show ?thesis by blast
qed

lemma migrate_history_prefix:
  assumes "migrate_history E root = (r, tr)" "parse_xml_history root = Inr css"
  shows "\<exists>k\<le>length css. commit_attempts tr = map commit_of (take k css) \<and> (r = None \<longrightarrow> k = length css)"
proof (cases css)
  case Nil
  with assms show ?thesis by (auto simp: migrate_history_def commit_attempts_def)
next
  case (Cons c cs')
  define tr1 where "tr1 = [Print ''Parsing Plastic SCM history...'',
      Print (''Found '' @ str_nat (length css) @ '' changesets (IDs: ''
                                  @ str_int (cs_id (hd css)) @ '' to ''
                                  @ str_int (cs_id (last css)) @ '')'' @ [newline]),
                          Print (''Starting migration...'' @ [newline])]"
  obtain r2 tr2 where lp: "migrate_loop E (length css) 0 css \<lparr>current_branch = None, git_branches = {}\<rparr> tr1 = (r2, tr2)"
    by (cases "migrate_loop E (length css) 0 css \<lparr>current_branch = None, git_branches = {}\<rparr> tr1")
  from migrate_loop_prefix [OF lp] obtain k where k: "k \<le> length css"
    "commit_attempts tr2 = map commit_of (take k css)" "\<not> isl r2 \<longrightarrow> k = length css"
    by (auto simp: tr1_def commit_attempts_def)
  show ?thesis
  proof (cases r2)
    case (Inl e)
    with assms Cons lp have "tr = tr2" "r = Some e"
      by (auto simp: migrate_history_def Let_def tr1_def)
    with k show ?thesis by auto
  next
    case (Inr L)
    obtain rb tr3 where br: "run_command E (tr2 @ summary_lines (length css) L) ''git branch -a'' False = (rb, tr3)"
      by (cases "run_command E (tr2 @ summary_lines (length css) L) ''git branch -a'' False")
    from assms Cons lp Inr br have "tr = tr3"
      by (auto simp: migrate_history_def Let_def tr1_def)
    with run_command_commands [OF br] have "commit_attempts tr = commit_attempts tr2"
      by (simp add: commit_attempts_def)
    with k Inr show ?thesis by auto
  qed
qed

lemma migrate_subseq:
  assumes "migrate E root = (r, tr)" "parse_history root = Inr scs"
  shows "\<exists>ys. subseq ys scs \<and> commit_attempts tr = map simple_commit_cmd ys"
proof -
  define tr1 where "tr1 = [Print ''Parsing history...'',
       Print (''Found '' @ str_nat (length scs) @ '' changesets'' @ [newline]),
                               Print (''Migrating...'' @ [newline])]"
  obtain r2 tr2 where lp: "simple_loop E (length scs) 0 scs
        \<lparr>s_current_branch = None, s_git_branches = {}, success_count = 0\<rparr> tr1 = (r2, tr2)"
    by (cases "simple_loop E (length scs) 0 scs \<lparr>s_current_branch = None, s_git_branches = {}, success_count = 0\<rparr> tr1")
  from simple_loop_subseq [OF lp] obtain ys where ys: "subseq ys scs"
     "commit_attempts tr2 = map simple_commit_cmd ys"
    by (auto simp: tr1_def commit_attempts_def)
  from assms lp have "commit_attempts tr = commit_attempts tr2"
    by (cases r2) (auto simp: migrate_def Let_def tr1_def simple_summary_lines_def commit_attempts_def)
  with ys show ?thesis by auto
qed

text \<open>
  C1. Both readers return the changesets sorted by \<open>id\<close>, strictly ascending when the ids
  are distinct, and the sequence of ids does not depend on the order of the records in
  the document. The driver of migrate_plastic_to_git.py walks that list from its head:
  the commits it attempts are those of an initial segment of the list, in the list's
  order, and of the whole list when no exception ends the run. The driver of
  migrate_simple.py walks its list in order too and attempts the commits of those
  changesets whose workspace switch succeeded: a subsequence of the list.
\<close>

theorem changesets_in_ascending_id_order:
  "(parse_xml_history root = Inr css \<longrightarrow>
      sorted (map cs_id css) \<and> (distinct (map cs_id css) \<longrightarrow> sorted_wrt (<) (map cs_id css)))
   \<and> (parse_xml_history root = Inr css
        \<and> mset (elem_findall ''Changeset'' root') = mset (elem_findall ''Changeset'' root) \<longrightarrow>
      (\<exists>css'. parse_xml_history root' = Inr css' \<and> map cs_id css' = map cs_id css))
   \<and> (parse_xml_history root = Inr css \<and> migrate_history E root = (r, tr) \<longrightarrow>
      (\<exists>k\<le>length css. commit_attempts tr = map commit_of (take k css) \<and> (r = None \<longrightarrow> k = length css)))
   \<and> (parse_history root = Inr scs \<longrightarrow>
      sorted (map s_id scs) \<and> (distinct (map s_id scs) \<longrightarrow> sorted_wrt (<) (map s_id scs)))
   \<and> (parse_history root = Inr scs
        \<and> mset (elem_findall ''Changeset'' root') = mset (elem_findall ''Changeset'' root) \<longrightarrow>
      (\<exists>scs'. parse_history root' = Inr scs' \<and> map s_id scs' = map s_id scs))
   \<and> (parse_history root = Inr scs \<and> migrate E root = (r', tr') \<longrightarrow>
      (\<exists>ys. subseq ys scs \<and> commit_attempts tr' = map simple_commit_cmd ys))"
  using parse_xml_history_sorted [of root css] parse_xml_history_perm [of root css root']
    migrate_history_prefix [of E root r tr css] parse_history_sorted [of root scs]
    parse_history_perm [of root scs root'] migrate_subseq [of E root r' tr' scs]
    sorted_distinct_strict [of "map cs_id css"] sorted_distinct_strict [of "map s_id scs"]
  by blast

lemma not_isl_projr: "\<not> isl x \<Longrightarrow> x = Inr (projr x)"
  by (cases x) simp_all

text \<open>
  The hypotheses of C1 hold on \<open>doc_unsorted\<close>, whose records carry the ids 3, 1, 2,
  and on its reordering \<open>doc_sorted\<close>.
\<close>

theorem changesets_in_ascending_id_order_witness:
  "parse_xml_history doc_unsorted = Inr (projr (parse_xml_history doc_unsorted))
   \<and> parse_history doc_unsorted = Inr (projr (parse_history doc_unsorted))
   \<and> distinct (map cs_id (projr (parse_xml_history doc_unsorted)))
   \<and> distinct (map s_id (projr (parse_history doc_unsorted)))
   \<and> mset (elem_findall ''Changeset'' doc_sorted) = mset (elem_findall ''Changeset'' doc_unsorted)
   \<and> map cs_id (projr (parse_xml_history doc_unsorted)) = [1, 2, 3]
   \<and> sorted_wrt (<) (map cs_id (projr (parse_xml_history doc_unsorted)))
   \<and> sorted_wrt (<) (map s_id (projr (parse_history doc_unsorted)))
   \<and> (\<exists>css'. parse_xml_history doc_sorted = Inr css'
          \<and> map cs_id css' = map cs_id (projr (parse_xml_history doc_unsorted)))
   \<and> (\<exists>scs'. parse_history doc_sorted = Inr scs'
          \<and> map s_id scs' = map s_id (projr (parse_history doc_unsorted)))
   \<and> commit_attempts (snd (migrate_history (sample_env all_ok) doc_unsorted))
       = map commit_of (projr (parse_xml_history doc_unsorted))
   \<and> (\<exists>ys. subseq ys (projr (parse_history doc_unsorted))
          \<and> commit_attempts (snd (migrate (sample_env all_ok) doc_unsorted)) = map simple_commit_cmd ys)"
proof -
  let ?css = "projr (parse_xml_history doc_unsorted)"
  let ?scs = "projr (parse_history doc_unsorted)"
  let ?X = "migrate_history (sample_env all_ok) doc_unsorted"
  let ?Y = "migrate (sample_env all_ok) doc_unsorted"
  have "\<not> isl (parse_xml_history doc_unsorted)" by code_simp
  then have h1: "parse_xml_history doc_unsorted = Inr ?css" by (rule not_isl_projr)
  have "\<not> isl (parse_history doc_unsorted)" by code_simp
  then have h2: "parse_history doc_unsorted = Inr ?scs" by (rule not_isl_projr)
  have h3: "distinct (map cs_id ?css)" by code_simp
  have h4: "distinct (map s_id ?scs)" by code_simp
  have h5: "mset (elem_findall ''Changeset'' doc_sorted) = mset (elem_findall ''Changeset'' doc_unsorted)"
    by code_simp
  have h6: "?X = (None, snd ?X)" by code_simp
  have h7: "?Y = (fst ?Y, snd ?Y)" by simp
  have v: "map cs_id ?css = [1, 2, 3]" by code_simp
  note t = changesets_in_ascending_id_order [of doc_unsorted ?css doc_sorted "sample_env all_ok" None
             "snd ?X" ?scs "fst ?Y" "snd ?Y"]
  from t h1 h3 have c1: "sorted_wrt (<) (map cs_id ?css)" by blast
  from t h2 h4 have c2: "sorted_wrt (<) (map s_id ?scs)" by blast
  from t h1 h5 have c3: "\<exists>css'. parse_xml_history doc_sorted = Inr css' \<and> map cs_id css' = map cs_id ?css"
    by blast
  from t h2 h5 have c4: "\<exists>scs'. parse_history doc_sorted = Inr scs' \<and> map s_id scs' = map s_id ?scs"
    by blast
  from t h1 h6 have "\<exists>k\<le>length ?css. commit_attempts (snd ?X) = map commit_of (take k ?css)
        \<and> (None = (None :: py_error option) \<longrightarrow> k = length ?css)" by blast
  then have c5: "commit_attempts (snd ?X) = map commit_of ?css" by auto
  from t h2 h7 have c6: "\<exists>ys. subseq ys ?scs \<and> commit_attempts (snd ?Y) = map simple_commit_cmd ys"
    by blast
  from h1 h2 h3 h4 h5 v c1 c2 c3 c4 c5 c6 show ?thesis by blast
qed

section \<open>The message of a commit\<close>

lemma simple_parse_comment:
  assumes "simple_parse_changeset e = Inr sc" "find_text ''Comment'' e = Inr cm"
      and "map_err (find_text ''Type'')
             (case elem_find ''Changes'' e of None \<Rightarrow> [] | Some ch \<Rightarrow> elem_children ch) = Inr tys"
  shows "s_comment sc =
           (if strip (case cm of None \<Rightarrow> [] | Some s \<Rightarrow> s) \<noteq> []
            then strip (case cm of None \<Rightarrow> [] | Some s \<Rightarrow> s)
            else if message_parts (tally_types tys) \<noteq> [] then spec_message tys
            else ''Update (changeset '' @ str_int (s_id sc) @ '')'')"
  using assms
  by (auto simp: simple_parse_changeset_def Let_def message_parts_spec split: sum.splits)

lemma simple_parse_types:
  assumes "simple_parse_changeset e = Inr sc"
  shows "\<exists>tys. map_err (find_text ''Type'')
             (case elem_find ''Changes'' e of None \<Rightarrow> [] | Some ch \<Rightarrow> elem_children ch) = Inr tys"
  using assms by (auto simp: simple_parse_changeset_def split: sum.splits)

lemma generate_commit_message_comment:
  "strip (comment cs) \<noteq> [] \<Longrightarrow> generate_commit_message cs = comment cs"
  by (simp add: generate_commit_message_def)

lemma step_result: "\<not> isl (fst x) \<Longrightarrow> x = (Inr (projr (fst x)), snd x)"
  by (cases x) (simp add: not_isl_projr [symmetric])

text \<open>
  C7. The document \<open>doc_padded_comment\<close> holds one changeset whose comment is \<open>fix\<close>
  between two spaces, not empty after trimming. \<open>generate_commit_message\<close> returns
  the comment with its spaces, and the commit command of migrate_plastic_to_git.py
  carries it so. \<open>parse_history\<close> of migrate_simple.py stores the trimmed comment,
  and the commit command of that script carries \<open>fix\<close> without the spaces.
\<close>

theorem padded_comment_is_trimmed:
  "map (find_text ''Comment'') (elem_findall ''Changeset'' doc_padded_comment) = [Inr (Some '' fix '')]
   \<and> strip '' fix '' \<noteq> []
   \<and> map_sum id (map generate_commit_message) (parse_xml_history doc_padded_comment) = Inr ['' fix '']
   \<and> commit_attempts (snd (migrate_history (sample_env all_ok) doc_padded_comment)) =
       [''git -c user.email='' @ [CHR 0x22] @ ''danilodevs@gmail.com'' @ [CHR 0x22]
        @ '' -c user.name='' @ [CHR 0x22] @ ''Danilo Devs'' @ [CHR 0x22]
        @ '' commit --allow-empty --date='' @ [CHR 0x22] @ ''2024-01-01'' @ [CHR 0x22]
        @ '' -m '' @ [CHR 0x22] @ '' fix '' @ [CHR 0x22]]
   \<and> parse_history doc_padded_comment =
       Inr [\<lparr>s_id = 1, s_branch = Some ''/main'', s_comment = ''fix'', s_date = Some ''2024-01-01''\<rparr>]
   \<and> commit_attempts (snd (migrate (sample_env all_ok) doc_padded_comment)) =
       [''git -c user.email='' @ [CHR 0x22] @ ''danilodevs@gmail.com'' @ [CHR 0x22]
        @ '' -c user.name='' @ [CHR 0x22] @ ''Danilo Devs'' @ [CHR 0x22]
        @ '' commit --allow-empty --date='' @ [CHR 0x22] @ ''2024-01-01'' @ [CHR 0x22]
        @ '' -m '' @ [CHR 0x22] @ ''fix'' @ [CHR 0x22]]"
  by code_simp

lemma message_parts_Nil_iff:
  "message_parts (tally_types tys) = [] \<longleftrightarrow>
     count_type ''Added'' tys = 0 \<and> count_type ''Changed'' tys = 0
     \<and> count_type ''Deleted'' tys = 0 \<and> count_type ''Moved'' tys = 0"
  by (auto simp: message_parts_def tally_get_count)

text \<open>
  C8. For a changeset whose comment is empty after trimming and whose change list is
  not empty, \<open>generate_commit_message\<close> returns the message of the specification:
  each of Added, Changed, Deleted, Moved that occurs, with its count, in that order,
  joined by a comma and a space. Three Added and one Deleted give
  \<open>Add 3 file(s), Delete 1 file(s)\<close>, in whatever order the changes come.
  \<open>parse_history\<close> builds the same message when one of the four types occurs.
\<close>

theorem synthesized_message_lists_present_types:
  "(strip (comment cs) = [] \<and> changes cs \<noteq> [] \<longrightarrow>
      generate_commit_message cs = spec_message (map change_type (changes cs)))
   \<and> (strip (comment cs) = [] \<and> count_type ''Added'' (map change_type (changes cs)) = 3
        \<and> count_type ''Changed'' (map change_type (changes cs)) = 0
        \<and> count_type ''Deleted'' (map change_type (changes cs)) = 1
        \<and> count_type ''Moved'' (map change_type (changes cs)) = 0 \<longrightarrow>
      generate_commit_message cs = ''Add 3 file(s), Delete 1 file(s)'')
   \<and> (simple_parse_changeset e = Inr sc \<and> find_text ''Comment'' e = Inr cm
        \<and> strip (case cm of None \<Rightarrow> [] | Some s \<Rightarrow> s) = []
        \<and> elem_find ''Changes'' e = Some ch
        \<and> map_err (find_text ''Type'') (elem_children ch) = Inr tys
        \<and> (0 < count_type ''Added'' tys \<or> 0 < count_type ''Changed'' tys
             \<or> 0 < count_type ''Deleted'' tys \<or> 0 < count_type ''Moved'' tys) \<longrightarrow>
      s_comment sc = spec_message tys)"
proof -
  have a: "strip (comment cs) = [] \<and> changes cs \<noteq> [] \<longrightarrow>
      generate_commit_message cs = spec_message (map change_type (changes cs))"
    using generate_spec by blast
  have n3: "str_nat 3 = ''3''" and n1: "str_nat (Suc 0) = ''1''" by code_simp+
  have b: "generate_commit_message cs = ''Add 3 file(s), Delete 1 file(s)''"
    if h: "strip (comment cs) = []" "count_type ''Added'' (map change_type (changes cs)) = 3"
        "count_type ''Changed'' (map change_type (changes cs)) = 0"
        "count_type ''Deleted'' (map change_type (changes cs)) = 1"
        "count_type ''Moved'' (map change_type (changes cs)) = 0"
  proof -
    from h(2) have "changes cs \<noteq> []" by (auto simp: count_type_def)
    with a h(1) have "generate_commit_message cs = spec_message (map change_type (changes cs))" by blast
    also have "\<dots> = ''Add 3 file(s), Delete 1 file(s)''"
      using h(2-5) by (simp add: spec_message_def spec_part_def n3 n1)
    finally show ?thesis .
  qed
  have c: "s_comment sc = spec_message tys"
    if h: "simple_parse_changeset e = Inr sc" "find_text ''Comment'' e = Inr cm"
        "strip (case cm of None \<Rightarrow> [] | Some s \<Rightarrow> s) = []"
        "elem_find ''Changes'' e = Some ch"
        "map_err (find_text ''Type'') (elem_children ch) = Inr tys"
        "0 < count_type ''Added'' tys \<or> 0 < count_type ''Changed'' tys
             \<or> 0 < count_type ''Deleted'' tys \<or> 0 < count_type ''Moved'' tys"
  proof -
    from h(6) have "message_parts (tally_types tys) \<noteq> []"
      by (auto simp: message_parts_Nil_iff)
    with simple_parse_comment [OF h(1,2), of tys] h(3,4,5) show ?thesis by simp
  qed
  from a b c show ?thesis by blast
qed

text \<open>
  The hypotheses of C8 hold for a changeset with three Added and one Deleted change
  and a comment of two spaces, and for the matching record of a document.
\<close>

theorem synthesized_message_lists_present_types_witness:
  "strip (comment cs_three_added_one_deleted) = []
   \<and> changes cs_three_added_one_deleted \<noteq> []
   \<and> count_type ''Added'' (map change_type (changes cs_three_added_one_deleted)) = 3
   \<and> count_type ''Changed'' (map change_type (changes cs_three_added_one_deleted)) = 0
   \<and> count_type ''Deleted'' (map change_type (changes cs_three_added_one_deleted)) = 1
   \<and> count_type ''Moved'' (map change_type (changes cs_three_added_one_deleted)) = 0
   \<and> generate_commit_message cs_three_added_one_deleted = ''Add 3 file(s), Delete 1 file(s)''
   \<and> spec_message (map change_type (changes cs_three_added_one_deleted)) = ''Add 3 file(s), Delete 1 file(s)''
   \<and> \<not> isl (simple_parse_changeset elem_three_added_one_deleted)
   \<and> s_comment (projr (simple_parse_changeset elem_three_added_one_deleted))
        = ''Add 3 file(s), Delete 1 file(s)''"
proof -
  let ?cs = cs_three_added_one_deleted
  let ?e = elem_three_added_one_deleted
  let ?ch = "Element ''Changes'' None
          [item_elem ''Added'' ''/a'' ''/a'', item_elem ''Deleted'' ''/d'' ''/d'',
           item_elem ''Added'' ''/b'' ''/b'', item_elem ''Added'' ''/c'' ''/c'']"
  let ?tys = "[Some ''Added'', Some ''Deleted'', Some ''Added'', Some ''Added'']"
  have h1: "strip (comment ?cs) = []" by code_simp
  have h2: "changes ?cs \<noteq> []" by code_simp
  have h3: "count_type ''Added'' (map change_type (changes ?cs)) = 3"
           "count_type ''Changed'' (map change_type (changes ?cs)) = 0"
           "count_type ''Deleted'' (map change_type (changes ?cs)) = 1"
           "count_type ''Moved'' (map change_type (changes ?cs)) = 0"
    by code_simp+
  have h4: "\<not> isl (simple_parse_changeset ?e)" by code_simp
  have h5: "find_text ''Comment'' ?e = Inr None" by code_simp
  have h6: "strip (case (None :: string option) of None \<Rightarrow> [] | Some s \<Rightarrow> s) = []" by code_simp
  have h7: "elem_find ''Changes'' ?e = Some ?ch" by code_simp
  have h8: "map_err (find_text ''Type'') (elem_children ?ch) = Inr ?tys" by code_simp
  have h9: "0 < count_type ''Added'' ?tys" by code_simp
  have v: "spec_message ?tys = ''Add 3 file(s), Delete 1 file(s)''" by code_simp
  have w: "map change_type (changes ?cs) = ?tys" by code_simp
  note t = synthesized_message_lists_present_types
             [of ?cs ?e "projr (simple_parse_changeset ?e)" None ?ch ?tys]
  from t h1 h3 have c1: "generate_commit_message ?cs = ''Add 3 file(s), Delete 1 file(s)''" by blast
  from t h1 h2 have "generate_commit_message ?cs = spec_message (map change_type (changes ?cs))" by blast
  with c1 have c2: "spec_message (map change_type (changes ?cs)) = ''Add 3 file(s), Delete 1 file(s)''"
    by simp
  from t not_isl_projr [OF h4] h5 h6 h7 h8 h9
  have "s_comment (projr (simple_parse_changeset ?e)) = spec_message ?tys" by blast
  with v have c3: "s_comment (projr (simple_parse_changeset ?e)) = ''Add 3 file(s), Delete 1 file(s)''"
    by simp
  from h1 h2 h3 h4 c1 c2 c3 show ?thesis by blast
qed

section \<open>Changesets without changes\<close>

lemma replace_char_absent: "old \<notin> set s \<Longrightarrow> replace_char old new s = s"
  by (induction s) (auto simp: replace_char_def)

lemma is_digit_digit_char: "d < 10 \<Longrightarrow> is_digit (digit_char d)"
  by (simp add: is_digit_def digit_char_def)

lemma str_nat_digits: "set (str_nat n) \<subseteq> {c. is_digit c}"
proof (induction n rule: str_nat.induct)
  case (1 n)
  show ?case
  proof (cases "n < 10")
    case True
    then show ?thesis by (subst str_nat.simps) (simp add: is_digit_digit_char)
  next
    case False
    with 1 have "set (str_nat (n div 10)) \<subseteq> {c. is_digit c}" by simp
    moreover have "is_digit (digit_char (n mod 10))" by (simp add: is_digit_digit_char)
    ultimately show ?thesis using False by (subst str_nat.simps) auto
  qed
qed

lemma str_int_chars: "set (str_int i) \<subseteq> {c. is_digit c \<or> c = CHR ''-''}"
  using str_nat_digits by (auto simp: str_int_def)

lemma is_digit_plain: "is_digit c \<Longrightarrow> c \<noteq> CHR 0x22 \<and> c \<noteq> CHR ''$'' \<and> c \<noteq> CHR 0x27"
  by (auto simp: is_digit_def)

lemma fallback_message_plain:
  "c \<in> set (''Update (changeset '' @ str_int i @ '')'') \<Longrightarrow> c \<noteq> CHR 0x22 \<and> c \<noteq> CHR ''$'' \<and> c \<noteq> CHR 0x27"
  using str_int_chars [of i] is_digit_plain by auto

lemma message_safe_fallback:
  "message_safe (''Update (changeset '' @ str_int i @ '')'') = ''Update (changeset '' @ str_int i @ '')''"
proof -
  let ?m = "''Update (changeset '' @ str_int i @ '')''"
  have q: "CHR 0x22 \<notin> set ?m" and d: "CHR ''$'' \<notin> set ?m"
    using fallback_message_plain [of _ i] by blast+
  have 1: "replace_char CHR 0x22 [backslash, CHR 0x22] ?m = ?m"
    using q by (rule replace_char_absent)
  have 2: "replace_char CHR ''$'' [backslash, CHR ''$''] ?m = ?m"
    using d by (rule replace_char_absent)
  show ?thesis unfolding message_safe_def 1 2 ..
qed

lemma generate_fallback:
  "changes cs = [] \<Longrightarrow> strip (comment cs) = [] \<Longrightarrow>
   generate_commit_message cs = ''Update (changeset '' @ str_int (cs_id cs) @ '')''"
  by (simp add: generate_commit_message_def tally_types_def)

lemma migrate_step_no_changes:
  "changes cs = [] \<Longrightarrow> branch cs = Some b \<Longrightarrow> \<exists>L1 tr1. migrate_step E n i cs L tr = (Inr L1, tr1)"
  by (auto simp: migrate_step_def Let_def apply_changeset_files_def files_to_process_def split: prod.splits)

lemma simple_step_Inr_ex:
  assumes ok: "\<not> failed (subprocess_run E (tr @ [PrintInline (simple_progress_line (i + 1) n (s_id cs))])
                     (''cm switch cs:'' @ str_int (s_id cs)))"
      and b: "s_branch cs = Some b"
  shows "\<exists>L1 tr1. simple_step E n i cs L tr = (Inr L1, tr1)"
proof -
  let ?tr0 = "tr @ [PrintInline (simple_progress_line (i + 1) n (s_id cs))]"
  let ?sw = "''cm switch cs:'' @ str_int (s_id cs)"
  obtain r0 t0 where sw: "run_cmd E ?tr0 ?sw False = (r0, t0)"
    by (cases "run_cmd E ?tr0 ?sw False")
  from run_cmd_code [OF sw] ok have z: "snd r0 = 0" by simp
  from sw z b show ?thesis
    by (auto simp: simple_step_def Let_def split: prod.splits)
qed

lemma simple_commit_cmd_fallback:
  assumes "s_comment sc = ''Update (changeset '' @ str_int (s_id sc) @ '')''"
  shows "simple_commit_cmd sc =
           ''git -c user.email='' @ [CHR 0x22] @ GIT_AUTHOR_EMAIL @ [CHR 0x22]
           @ '' -c user.name='' @ [CHR 0x22] @ GIT_AUTHOR_NAME @ [CHR 0x22]
           @ '' commit --allow-empty --date='' @ [CHR 0x22] @ str_opt (s_date sc) @ [CHR 0x22]
           @ '' -m '' @ [CHR 0x22] @ ''Update (changeset '' @ str_int (s_id sc) @ '')'' @ [CHR 0x22]"
proof -
  let ?m = "''Update (changeset '' @ str_int (s_id sc) @ '')''"
  have q: "CHR 0x22 \<notin> set ?m" and a: "CHR 0x27 \<notin> set ?m"
    using fallback_message_plain [of _ "s_id sc"] by blast+
  have 1: "replace_char CHR 0x22 [backslash, CHR 0x22] ?m = ?m"
    using q by (rule replace_char_absent)
  have 2: "replace_char CHR 0x27 [CHR 0x27, backslash, CHR 0x27, CHR 0x27] ?m = ?m"
    using a by (rule replace_char_absent)
  show ?thesis unfolding simple_commit_cmd_def Let_def assms 1 2 by simp
qed

lemma commit_cmd_fallback:
  "commit_cmd (''Update (changeset '' @ str_int i @ '')'') d GIT_AUTHOR_EMAIL GIT_AUTHOR_NAME =
           ''git -c user.email='' @ [CHR 0x22] @ GIT_AUTHOR_EMAIL @ [CHR 0x22]
           @ '' -c user.name='' @ [CHR 0x22] @ GIT_AUTHOR_NAME @ [CHR 0x22]
           @ '' commit --allow-empty --date='' @ [CHR 0x22] @ str_opt d @ [CHR 0x22]
           @ '' -m '' @ [CHR 0x22] @ ''Update (changeset '' @ str_int i @ '')'' @ [CHR 0x22]"
  by (simp only: commit_cmd_def message_safe_fallback) simp

text \<open>
  C9. For a changeset with no change and a comment that is empty after trimming, the
  driver of migrate_plastic_to_git.py raises no exception and attempts exactly one
  commit: the command carries \<open>--allow-empty\<close> and the message \<open>Update (changeset id)\<close>
  with the changeset's id. In migrate_simple.py the reader gives such a record that
  message, and the driver attempts exactly one commit with it, also with
  \<open>--allow-empty\<close>, once the workspace switch of the changeset has succeeded.
  Whether the commit is created is the external tool's answer.
\<close>

theorem empty_changeset_is_committed:
  "(changes cs = [] \<and> strip (comment cs) = [] \<and> branch cs = Some b \<longrightarrow>
      (\<exists>L1 tr1. migrate_step E n i cs L tr = (Inr L1, tr1) \<and>
         commit_attempts tr1 = commit_attempts tr @
           [''git -c user.email='' @ [CHR 0x22] @ GIT_AUTHOR_EMAIL @ [CHR 0x22]
            @ '' -c user.name='' @ [CHR 0x22] @ GIT_AUTHOR_NAME @ [CHR 0x22]
            @ '' commit --allow-empty --date='' @ [CHR 0x22] @ str_opt (date_str cs) @ [CHR 0x22]
            @ '' -m '' @ [CHR 0x22] @ ''Update (changeset '' @ str_int (cs_id cs) @ '')'' @ [CHR 0x22]]))
   \<and> (simple_parse_changeset e = Inr sc \<and> find_text ''Comment'' e = Inr cm
        \<and> strip (case cm of None \<Rightarrow> [] | Some s \<Rightarrow> s) = []
        \<and> (case elem_find ''Changes'' e of None \<Rightarrow> [] | Some ch \<Rightarrow> elem_children ch) = [] \<longrightarrow>
      s_comment sc = ''Update (changeset '' @ str_int (s_id sc) @ '')'')
   \<and> (s_comment sc = ''Update (changeset '' @ str_int (s_id sc) @ '')'' \<and> s_branch sc = Some b'
        \<and> \<not> failed (subprocess_run E (tr @ [PrintInline (simple_progress_line (i + 1) n (s_id sc))])
                     (''cm switch cs:'' @ str_int (s_id sc))) \<longrightarrow>
      (\<exists>L1 tr1. simple_step E n i sc SL tr = (Inr L1, tr1) \<and>
         commit_attempts tr1 = commit_attempts tr @
           [''git -c user.email='' @ [CHR 0x22] @ GIT_AUTHOR_EMAIL @ [CHR 0x22]
            @ '' -c user.name='' @ [CHR 0x22] @ GIT_AUTHOR_NAME @ [CHR 0x22]
            @ '' commit --allow-empty --date='' @ [CHR 0x22] @ str_opt (s_date sc) @ [CHR 0x22]
            @ '' -m '' @ [CHR 0x22] @ ''Update (changeset '' @ str_int (s_id sc) @ '')'' @ [CHR 0x22]]))"
proof -
  have a: "\<exists>L1 tr1. migrate_step E n i cs L tr = (Inr L1, tr1) \<and>
         commit_attempts tr1 = commit_attempts tr @
           [''git -c user.email='' @ [CHR 0x22] @ GIT_AUTHOR_EMAIL @ [CHR 0x22]
            @ '' -c user.name='' @ [CHR 0x22] @ GIT_AUTHOR_NAME @ [CHR 0x22]
            @ '' commit --allow-empty --date='' @ [CHR 0x22] @ str_opt (date_str cs) @ [CHR 0x22]
            @ '' -m '' @ [CHR 0x22] @ ''Update (changeset '' @ str_int (cs_id cs) @ '')'' @ [CHR 0x22]]"
    if h: "changes cs = []" "strip (comment cs) = []" "branch cs = Some b"
  proof -
    from migrate_step_no_changes [OF h(1,3)] obtain L1 tr1 where
      st: "migrate_step E n i cs L tr = (Inr L1, tr1)" by blast
    from migrate_step_commit_attempts [OF st] generate_fallback [OF h(1,2)]
    have "commit_attempts tr1 = commit_attempts tr @
       [commit_cmd (''Update (changeset '' @ str_int (cs_id cs) @ '')'') (date_str cs) GIT_AUTHOR_EMAIL GIT_AUTHOR_NAME]"
      by simp
    with st show ?thesis unfolding commit_cmd_fallback by blast
  qed
  have b: "s_comment sc = ''Update (changeset '' @ str_int (s_id sc) @ '')''"
    if h: "simple_parse_changeset e = Inr sc" "find_text ''Comment'' e = Inr cm"
        "strip (case cm of None \<Rightarrow> [] | Some s \<Rightarrow> s) = []"
        "(case elem_find ''Changes'' e of None \<Rightarrow> [] | Some ch \<Rightarrow> elem_children ch) = []"
  proof -
    have "map_err (find_text ''Type'')
             (case elem_find ''Changes'' e of None \<Rightarrow> [] | Some ch \<Rightarrow> elem_children ch) = Inr []"
      using h(4) by simp
    from simple_parse_comment [OF h(1,2) this] h(3) show ?thesis
      by (simp add: message_parts_def tally_types_def tally_get_def)
  qed
  have c: "\<exists>L1 tr1. simple_step E n i sc SL tr = (Inr L1, tr1) \<and>
         commit_attempts tr1 = commit_attempts tr @
           [''git -c user.email='' @ [CHR 0x22] @ GIT_AUTHOR_EMAIL @ [CHR 0x22]
            @ '' -c user.name='' @ [CHR 0x22] @ GIT_AUTHOR_NAME @ [CHR 0x22]
            @ '' commit --allow-empty --date='' @ [CHR 0x22] @ str_opt (s_date sc) @ [CHR 0x22]
            @ '' -m '' @ [CHR 0x22] @ ''Update (changeset '' @ str_int (s_id sc) @ '')'' @ [CHR 0x22]]"
    if h: "s_comment sc = ''Update (changeset '' @ str_int (s_id sc) @ '')''" "s_branch sc = Some b'"
        "\<not> failed (subprocess_run E (tr @ [PrintInline (simple_progress_line (i + 1) n (s_id sc))])
                     (''cm switch cs:'' @ str_int (s_id sc)))"
  proof -
    from simple_step_Inr_ex [OF h(3,2)] obtain L1 tr1 where
      st: "simple_step E n i sc SL tr = (Inr L1, tr1)" by blast
    from simple_step_commands [OF h(3) st]
    have "commit_attempts tr1 = commit_attempts tr @ [simple_commit_cmd sc]"
      by (auto simp: commit_attempts_def take_simple_commit_cmd)
    with st show ?thesis unfolding simple_commit_cmd_fallback [OF h(1)] by blast
  qed
  from a b c show ?thesis by blast
qed

text \<open>
  The hypotheses of C9 hold for changeset 42 on \<open>/main/feature-x\<close>, with tools that
  succeed.
\<close>

theorem empty_changeset_is_committed_witness:
  "changes cs_empty = [] \<and> strip (comment cs_empty) = [] \<and> branch cs_empty = Some ''/main/feature-x''
   \<and> commit_attempts (snd (migrate_step (sample_env all_ok) 1 0 cs_empty no_locals [])) =
        [''git -c user.email='' @ [CHR 0x22] @ ''danilodevs@gmail.com'' @ [CHR 0x22]
         @ '' -c user.name='' @ [CHR 0x22] @ ''Danilo Devs'' @ [CHR 0x22]
         @ '' commit --allow-empty --date='' @ [CHR 0x22] @ ''2024-01-01'' @ [CHR 0x22]
         @ '' -m '' @ [CHR 0x22] @ ''Update (changeset 42)'' @ [CHR 0x22]]
   \<and> \<not> isl (simple_parse_changeset elem_empty)
   \<and> find_text ''Comment'' elem_empty = Inr None
   \<and> s_comment (projr (simple_parse_changeset elem_empty)) = ''Update (changeset 42)''
   \<and> s_branch (projr (simple_parse_changeset elem_empty)) = Some ''/main/feature-x''
   \<and> \<not> failed (subprocess_run (sample_env all_ok) [PrintInline (simple_progress_line 1 1 42)] ''cm switch cs:42'')
   \<and> commit_attempts (snd (simple_step (sample_env all_ok) 1 0 (projr (simple_parse_changeset elem_empty))
                               simple_no_locals [])) =
        [''git -c user.email='' @ [CHR 0x22] @ ''danilodevs@gmail.com'' @ [CHR 0x22]
         @ '' -c user.name='' @ [CHR 0x22] @ ''Danilo Devs'' @ [CHR 0x22]
         @ '' commit --allow-empty --date='' @ [CHR 0x22] @ ''2024-01-01'' @ [CHR 0x22]
         @ '' -m '' @ [CHR 0x22] @ ''Update (changeset 42)'' @ [CHR 0x22]]"
proof -
  let ?E = "sample_env all_ok"
  let ?sc = "projr (simple_parse_changeset elem_empty)"
  have h1: "changes cs_empty = []" "strip (comment cs_empty) = []"
           "branch cs_empty = Some ''/main/feature-x''"
    by code_simp+
  have h2: "\<not> isl (simple_parse_changeset elem_empty)" by code_simp
  have h3: "find_text ''Comment'' elem_empty = Inr None" by code_simp
  have h4: "strip (case (None :: string option) of None \<Rightarrow> [] | Some s \<Rightarrow> s) = []" by code_simp
  have h5: "(case elem_find ''Changes'' elem_empty of None \<Rightarrow> [] | Some ch \<Rightarrow> elem_children ch) = []"
    by code_simp
  have h6: "s_branch ?sc = Some ''/main/feature-x''" by code_simp
  have h7: "\<not> failed (subprocess_run ?E [PrintInline (simple_progress_line 1 1 42)] ''cm switch cs:42'')"
    by code_simp
  have v1: "str_int (cs_id cs_empty) = ''42''" "str_opt (date_str cs_empty) = ''2024-01-01''"
           "str_int (s_id ?sc) = ''42''" "str_opt (s_date ?sc) = ''2024-01-01''" "s_id ?sc = 42"
           "str_int 42 = ''42''"
    by code_simp+
  have v2: "commit_attempts [] = []" by (simp add: commit_attempts_def)
  note t = empty_changeset_is_committed [of cs_empty "''/main/feature-x''" ?E 1 0 no_locals "[]"
             elem_empty ?sc None "''/main/feature-x''" simple_no_locals]
  from t h1 have "\<exists>L1 tr1. migrate_step ?E 1 0 cs_empty no_locals [] = (Inr L1, tr1) \<and>
         commit_attempts tr1 = commit_attempts [] @
           [''git -c user.email='' @ [CHR 0x22] @ GIT_AUTHOR_EMAIL @ [CHR 0x22]
            @ '' -c user.name='' @ [CHR 0x22] @ GIT_AUTHOR_NAME @ [CHR 0x22]
            @ '' commit --allow-empty --date='' @ [CHR 0x22] @ str_opt (date_str cs_empty) @ [CHR 0x22]
            @ '' -m '' @ [CHR 0x22] @ ''Update (changeset '' @ str_int (cs_id cs_empty) @ '')'' @ [CHR 0x22]]"
    by blast
  then have c1: "commit_attempts (snd (migrate_step ?E 1 0 cs_empty no_locals [])) =
        [''git -c user.email='' @ [CHR 0x22] @ ''danilodevs@gmail.com'' @ [CHR 0x22]
         @ '' -c user.name='' @ [CHR 0x22] @ ''Danilo Devs'' @ [CHR 0x22]
         @ '' commit --allow-empty --date='' @ [CHR 0x22] @ ''2024-01-01'' @ [CHR 0x22]
         @ '' -m '' @ [CHR 0x22] @ ''Update (changeset 42)'' @ [CHR 0x22]]"
    by (auto simp: v1 v2 GIT_AUTHOR_EMAIL_def GIT_AUTHOR_NAME_def)
  from t not_isl_projr [OF h2] h3 h4 h5
  have c2': "s_comment ?sc = ''Update (changeset '' @ str_int (s_id ?sc) @ '')''" by blast
  then have c2: "s_comment ?sc = ''Update (changeset 42)''" by (simp add: v1)
  from h7 have h7': "\<not> failed (subprocess_run ?E ([] @ [PrintInline (simple_progress_line (0 + 1) 1 (s_id ?sc))])
                     (''cm switch cs:'' @ str_int (s_id ?sc)))"
    by (simp add: v1)
  from t c2' h6 h7'
  have "\<exists>L1 tr1. simple_step ?E 1 0 ?sc simple_no_locals [] = (Inr L1, tr1) \<and>
         commit_attempts tr1 = commit_attempts [] @
           [''git -c user.email='' @ [CHR 0x22] @ GIT_AUTHOR_EMAIL @ [CHR 0x22]
            @ '' -c user.name='' @ [CHR 0x22] @ GIT_AUTHOR_NAME @ [CHR 0x22]
            @ '' commit --allow-empty --date='' @ [CHR 0x22] @ str_opt (s_date ?sc) @ [CHR 0x22]
            @ '' -m '' @ [CHR 0x22] @ ''Update (changeset '' @ str_int (s_id ?sc) @ '')'' @ [CHR 0x22]]"
    by blast
  then have c3: "commit_attempts (snd (simple_step ?E 1 0 ?sc simple_no_locals [])) =
        [''git -c user.email='' @ [CHR 0x22] @ ''danilodevs@gmail.com'' @ [CHR 0x22]
         @ '' -c user.name='' @ [CHR 0x22] @ ''Danilo Devs'' @ [CHR 0x22]
         @ '' commit --allow-empty --date='' @ [CHR 0x22] @ ''2024-01-01'' @ [CHR 0x22]
         @ '' -m '' @ [CHR 0x22] @ ''Update (changeset 42)'' @ [CHR 0x22]]"
    by (auto simp: v1 v2 GIT_AUTHOR_EMAIL_def GIT_AUTHOR_NAME_def)
  from h1 h2 h3 h6 h7 c1 c2 c3 show ?thesis by blast
qed

section \<open>A branch switch that fails\<close>

lemma run_command_prefix: "run_command E tr c cap = (r, t1) \<Longrightarrow> prefix tr t1"
  by (auto simp: run_command_def split: proc_result.splits)

lemma run_cmd_prefix: "run_cmd E tr c cap = (r, t1) \<Longrightarrow> prefix tr t1"
  by (auto simp: run_cmd_def split: proc_result.splits)

lemma process_file_prefix: "process_file E tr job = (r, t1) \<Longrightarrow> prefix tr t1"
  by (auto simp: process_file_def Let_def split: prod.splits if_splits option.splits
           dest!: run_command_prefix dest: append_prefixD intro: prefix_order.trans)

lemma process_files_prefix: "process_files E tr jobs = (r, t1) \<Longrightarrow> prefix tr t1"
proof (induction jobs arbitrary: tr)
  case Nil
  then show ?case by simp
next
  case (Cons job jobs)
  obtain r0 t0 where pf: "process_file E tr job = (r0, t0)" by (cases "process_file E tr job")
  from process_file_prefix [OF pf] have p0: "prefix tr t0" .
  show ?case
  proof (cases r0)
    case None
    with pf Cons.prems have "process_files E t0 jobs = (r, t1)" by simp
    from Cons.IH [OF this] p0 show ?thesis by (rule prefix_order.trans [rotated])
  next
    case (Some e)
    with pf Cons.prems have "t1 = t0" by simp
    with p0 show ?thesis by simp
  qed
qed

lemma process_files_jobs:
  "process_files E ta jobs = (None, tb) \<Longrightarrow> j \<in> set jobs \<Longrightarrow>
   \<exists>t t'. prefix ta t \<and> process_file E t j = (None, t') \<and> prefix t' tb"
proof (induction jobs arbitrary: ta)
  case Nil
  then show ?case by simp
next
  case (Cons job jobs)
  obtain r0 t0 where pf: "process_file E ta job = (r0, t0)" by (cases "process_file E ta job")
  with Cons.prems(1) have r0: "r0 = None" and rest: "process_files E t0 jobs = (None, tb)"
    by (auto split: option.splits)
  show ?case
  proof (cases "j = job")
    case True
    from process_files_prefix [OF rest] pf r0 True
    have "prefix ta ta \<and> process_file E ta j = (None, t0) \<and> prefix t0 tb" by simp
    then show ?thesis by blast
  next
    case False
    with Cons.prems(2) have "j \<in> set jobs" by simp
    from Cons.IH [OF rest this] obtain t t' where
      "prefix t0 t" "process_file E t j = (None, t')" "prefix t' tb" by blast
    moreover from process_file_prefix [OF pf] have "prefix ta t0" .
    ultimately have "prefix ta t \<and> process_file E t j = (None, t') \<and> prefix t' tb"
      using prefix_order.trans by blast
    then show ?thesis by blast
  qed
qed

lemma get_or_create_branch_result:
  "\<exists>ta. get_or_create_branch E tr0 g = (git_branch_name g, ta)
     \<and> commands ta = commands tr0 @
          [''git rev-parse --verify '' @ git_branch_name g @ '' 2>nul'',
           (if failed (subprocess_run E tr0 (''git rev-parse --verify '' @ git_branch_name g @ '' 2>nul''))
            then ''git checkout -b '' @ git_branch_name g else ''git checkout '' @ git_branch_name g)]"
proof -
  obtain x ta where g: "get_or_create_branch E tr0 g = (x, ta)"
    by (cases "get_or_create_branch E tr0 g")
  then have "x = git_branch_name g"
    by (auto simp: get_or_create_branch_def Let_def split: prod.splits if_splits)
  with g get_or_create_branch_commands [OF g] show ?thesis by blast
qed

lemma create_git_commit_result:
  "\<exists>tx. prefix tb tx \<and> commands tx = commands tb @ [''git add -A'']
     \<and> create_git_commit E tb m d e n =
         (\<not> failed (subprocess_run E tx (commit_cmd m d e n)), snd (run_command E tx (commit_cmd m d e n) False))"
proof -
  obtain r0 tx where a: "run_command E tb ''git add -A'' False = (r0, tx)"
    by (cases "run_command E tb ''git add -A'' False")
  obtain r ty where c: "run_command E tx (commit_cmd m d e n) False = (r, ty)"
    by (cases "run_command E tx (commit_cmd m d e n) False")
  from run_command_code [OF c] have "(snd r = 0) = (\<not> failed (subprocess_run E tx (commit_cmd m d e n)))"
    by blast
  with a c have "create_git_commit E tb m d e n =
         (\<not> failed (subprocess_run E tx (commit_cmd m d e n)), snd (run_command E tx (commit_cmd m d e n) False))"
    by (simp add: create_git_commit_def Let_def)
  with run_command_prefix [OF a] run_command_commands [OF a] show ?thesis by blast
qed

lemma migrate_step_after_switch:
  assumes b: "branch cs = Some b" and g: "g = git_branch_name b"
      and ne: "Some g \<noteq> current_branch L"
      and tr0: "tr0 = tr @ [PrintInline (progress_line (i + 1) n (cs_id cs) (take 40 b))]"
      and probe: "probe = ''git rev-parse --verify '' @ g @ '' 2>nul''"
      and co: "co = (if failed (subprocess_run E tr0 probe) then ''git checkout -b '' @ g else ''git checkout '' @ g)"
  shows "\<exists>ta ra tb.
          commands ta = commands tr @ [probe, co]
        \<and> apply_changeset_files E ta cs (cs_id cs) = (ra, tb)
        \<and> (\<forall>e. ra = Some e \<longrightarrow> migrate_step E n i cs L tr = (Inl e, tb))
        \<and> (ra = None \<longrightarrow>
             (\<forall>j\<in>set (files_to_process cs (cs_id cs)).
                 \<exists>t t'. prefix ta t \<and> process_file E t j = (None, t') \<and> prefix t' tb)
           \<and> (\<exists>tx. prefix tb tx \<and> commands tx = commands tb @ [''git add -A'']
                \<and> migrate_step E n i cs L tr =
                    (Inr \<lparr>current_branch = Some g, git_branches = insert g (git_branches L)\<rparr>,
                     snd (run_command E tx (commit_of cs) False)
                       @ [Print (if failed (subprocess_run E tx (commit_of cs))
                                 then cross_mark @ '' commit failed'' else check_mark)])))"
proof -
  from get_or_create_branch_result [of E tr0 g] obtain ta where
    ta: "get_or_create_branch E tr0 g = (g, ta)" "commands ta = commands tr @ [probe, co]"
    by (auto simp: g git_branch_name_idem tr0 probe co)
  obtain ra tb where ap: "apply_changeset_files E ta cs (cs_id cs) = (ra, tb)"
    by (cases "apply_changeset_files E ta cs (cs_id cs)")
  have e: "migrate_step E n i cs L tr = (Inl e, tb)" if "ra = Some e" for e
    using that b ne ta(1) ap by (simp add: migrate_step_def Let_def g tr0)
  have j: "\<forall>j\<in>set (files_to_process cs (cs_id cs)).
                 \<exists>t t'. prefix ta t \<and> process_file E t j = (None, t') \<and> prefix t' tb"
    if "ra = None"
    using that ap process_files_jobs [of E ta "files_to_process cs (cs_id cs)" tb]
    by (auto simp: apply_changeset_files_def)
  from create_git_commit_result [of tb E "generate_commit_message cs" "date_str cs" GIT_AUTHOR_EMAIL GIT_AUTHOR_NAME]
  obtain tx where tx: "prefix tb tx" "commands tx = commands tb @ [''git add -A'']"
    "create_git_commit E tb (generate_commit_message cs) (date_str cs) GIT_AUTHOR_EMAIL GIT_AUTHOR_NAME =
         (\<not> failed (subprocess_run E tx (commit_of cs)), snd (run_command E tx (commit_of cs) False))"
    by (auto simp: commit_of_def)
  have c: "migrate_step E n i cs L tr =
                    (Inr \<lparr>current_branch = Some g, git_branches = insert g (git_branches L)\<rparr>,
                     snd (run_command E tx (commit_of cs) False)
                       @ [Print (if failed (subprocess_run E tx (commit_of cs))
                                 then cross_mark @ '' commit failed'' else check_mark)])"
    if "ra = None"
    using that b ne ta(1) ap tx(3) by (simp add: migrate_step_def Let_def g tr0)
  from ta(2) ap e j c tx(1,2) show ?thesis by blast
qed

lemma simple_step_after_switch:
  assumes b: "s_branch sc = Some b" and g: "g = git_branch_name b"
      and ne: "Some g \<noteq> s_current_branch SL"
      and ts0: "ts0 = tr @ [PrintInline (simple_progress_line (i + 1) n (s_id sc))]"
      and sw: "sw = ''cm switch cs:'' @ str_int (s_id sc)"
      and ok: "\<not> failed (subprocess_run E ts0 sw)"
      and ts1: "ts1 = snd (run_cmd E ts0 sw False)"
      and probe: "probe = ''git rev-parse --verify '' @ g @ '' 2>nul''"
      and co: "co = (if failed (subprocess_run E ts1 probe) then ''git checkout -b '' @ g else ''git checkout '' @ g)"
  shows "\<exists>tx. commands tx = commands tr @ [sw, probe, co, ''git add -A'']
     \<and> simple_step E n i sc SL tr =
        (Inr (SL\<lparr>s_current_branch := Some g, s_git_branches := insert g (s_git_branches SL),
                 success_count := (if failed (subprocess_run E tx (simple_commit_cmd sc))
                                   then success_count SL else success_count SL + 1)\<rparr>),
         snd (run_cmd E tx (simple_commit_cmd sc) False)
           @ [Print (if failed (subprocess_run E tx (simple_commit_cmd sc)) then ''FAIL'' else ''OK'')])"
proof -
  obtain r0 t0 where s: "run_cmd E ts0 sw False = (r0, t0)" by (cases "run_cmd E ts0 sw False")
  from run_cmd_code [OF s] ok have z: "snd r0 = 0" by simp
  from s ts1 have t0: "t0 = ts1" by simp
  obtain L2 t2 where ph: "simple_switch_branch E SL ts1 g = (L2, t2)"
    by (cases "simple_switch_branch E SL ts1 g")
  note pp = simple_switch_branch_props [OF ph]
  obtain r3 tx where a: "run_cmd E t2 ''git add -A'' False = (r3, tx)"
    by (cases "run_cmd E t2 ''git add -A'' False")
  obtain r4 t4 where c: "run_cmd E tx (simple_commit_cmd sc) False = (r4, t4)"
    by (cases "run_cmd E tx (simple_commit_cmd sc) False")
  from run_cmd_code [OF c] have f: "failed (subprocess_run E tx (simple_commit_cmd sc)) = (snd r4 \<noteq> 0)"
    by simp
  have L2: "L2 = SL\<lparr>s_current_branch := Some g, s_git_branches := insert g (s_git_branches SL)\<rparr>"
    using ph ne by (auto simp: simple_switch_branch_def Let_def split: prod.splits)
  have cm: "commands tx = commands tr @ [sw, probe, co, ''git add -A'']"
    using run_cmd_commands [OF a] pp(4) run_cmd_commands [OF s] ne
    by (simp add: t0 ts0 probe co)
  have "simple_step E n i sc SL tr =
        (Inr (SL\<lparr>s_current_branch := Some g, s_git_branches := insert g (s_git_branches SL),
                 success_count := (if failed (subprocess_run E tx (simple_commit_cmd sc))
                                   then success_count SL else success_count SL + 1)\<rparr>),
         snd (run_cmd E tx (simple_commit_cmd sc) False)
           @ [Print (if failed (subprocess_run E tx (simple_commit_cmd sc)) then ''FAIL'' else ''OK'')])"
    using s z b ph a c f
    by (simp add: simple_step_def Let_def g ts0 sw t0 L2)
  with cm show ?thesis by blast
qed

text \<open>
  C2, as the code has it. Neither script reads the result of the checkout command.
  Take a changeset whose mapped branch differs from the tracked one, and let the
  checkout command that its step issues (\<open>git checkout -b\<close> when the probe failed,
  \<open>git checkout\<close> otherwise) report failure. In migrate_plastic_to_git.py the step
  then runs \<open>apply_changeset_files\<close> on the whole change list from the trace the
  failed checkout left: when it raises, the exception ends the step; otherwise every
  job of the change list (retrieval and write, deletion, both halves of a move) has
  been processed in order, \<open>git add -A\<close> and the commit command are run, the
  changeset is marked by the result of the commit command alone, the branch is
  tracked as if checked out, and the loop goes on with the next changeset. In
  migrate_simple.py, for a changeset whose workspace switch succeeded, the step
  runs \<open>git add -A\<close> and the commit command, counts a success exactly when the
  commit command succeeds, and the loop goes on with the next changeset.
\<close>

theorem branch_failure_is_not_detected:
  "(branch cs = Some b \<and> g = git_branch_name b \<and> Some g \<noteq> current_branch L
      \<and> tr0 = tr @ [PrintInline (progress_line (i + 1) n (cs_id cs) (take 40 b))]
      \<and> probe = ''git rev-parse --verify '' @ g @ '' 2>nul''
      \<and> co = (if failed (subprocess_run E tr0 probe) then ''git checkout -b '' @ g else ''git checkout '' @ g)
      \<and> failed (subprocess_run E (snd (run_command E tr0 probe False)) co) \<longrightarrow>
      (\<exists>ta ra tb.
          commands ta = commands tr @ [probe, co]
        \<and> apply_changeset_files E ta cs (cs_id cs) = (ra, tb)
        \<and> (\<forall>e. ra = Some e \<longrightarrow> migrate_step E n i cs L tr = (Inl e, tb))
        \<and> (ra = None \<longrightarrow>
             (\<forall>j\<in>set (files_to_process cs (cs_id cs)).
                 \<exists>t t'. prefix ta t \<and> process_file E t j = (None, t') \<and> prefix t' tb)
           \<and> (\<exists>tx. prefix tb tx \<and> commands tx = commands tb @ [''git add -A'']
                \<and> migrate_step E n i cs L tr =
                    (Inr \<lparr>current_branch = Some g, git_branches = insert g (git_branches L)\<rparr>,
                     snd (run_command E tx (commit_of cs) False)
                       @ [Print (if failed (subprocess_run E tx (commit_of cs))
                                 then cross_mark @ '' commit failed'' else check_mark)]))))
      \<and> (\<forall>L1 tr1. migrate_step E n i cs L tr = (Inr L1, tr1) \<longrightarrow>
            migrate_loop E n i (cs # rest) L tr = migrate_loop E n (Suc i) rest L1 tr1))
   \<and> (s_branch sc = Some b' \<and> g' = git_branch_name b' \<and> Some g' \<noteq> s_current_branch SL
      \<and> ts0 = tr @ [PrintInline (simple_progress_line (i + 1) n (s_id sc))]
      \<and> sw = ''cm switch cs:'' @ str_int (s_id sc)
      \<and> \<not> failed (subprocess_run E ts0 sw)
      \<and> ts1 = snd (run_cmd E ts0 sw False)
      \<and> probe' = ''git rev-parse --verify '' @ g' @ '' 2>nul''
      \<and> co' = (if failed (subprocess_run E ts1 probe') then ''git checkout -b '' @ g' else ''git checkout '' @ g')
      \<and> failed (subprocess_run E (snd (run_cmd E ts1 probe' False)) co') \<longrightarrow>
      (\<exists>tx. commands tx = commands tr @ [sw, probe', co', ''git add -A'']
        \<and> simple_step E n i sc SL tr =
            (Inr (SL\<lparr>s_current_branch := Some g', s_git_branches := insert g' (s_git_branches SL),
                     success_count := (if failed (subprocess_run E tx (simple_commit_cmd sc))
                                       then success_count SL else success_count SL + 1)\<rparr>),
             snd (run_cmd E tx (simple_commit_cmd sc) False)
               @ [Print (if failed (subprocess_run E tx (simple_commit_cmd sc)) then ''FAIL'' else ''OK'')]))
      \<and> (\<forall>L1 tr1. simple_step E n i sc SL tr = (Inr L1, tr1) \<longrightarrow>
            simple_loop E n i (sc # rest') SL tr = simple_loop E n (Suc i) rest' L1 tr1))"
proof -
  have main: "(\<exists>ta ra tb.
          commands ta = commands tr @ [probe, co]
        \<and> apply_changeset_files E ta cs (cs_id cs) = (ra, tb)
        \<and> (\<forall>e. ra = Some e \<longrightarrow> migrate_step E n i cs L tr = (Inl e, tb))
        \<and> (ra = None \<longrightarrow>
             (\<forall>j\<in>set (files_to_process cs (cs_id cs)).
                 \<exists>t t'. prefix ta t \<and> process_file E t j = (None, t') \<and> prefix t' tb)
           \<and> (\<exists>tx. prefix tb tx \<and> commands tx = commands tb @ [''git add -A'']
                \<and> migrate_step E n i cs L tr =
                    (Inr \<lparr>current_branch = Some g, git_branches = insert g (git_branches L)\<rparr>,
                     snd (run_command E tx (commit_of cs) False)
                       @ [Print (if failed (subprocess_run E tx (commit_of cs))
                                 then cross_mark @ '' commit failed'' else check_mark)]))))"
    if "branch cs = Some b" "g = git_branch_name b" "Some g \<noteq> current_branch L"
       "tr0 = tr @ [PrintInline (progress_line (i + 1) n (cs_id cs) (take 40 b))]"
       "probe = ''git rev-parse --verify '' @ g @ '' 2>nul''"
       "co = (if failed (subprocess_run E tr0 probe) then ''git checkout -b '' @ g else ''git checkout '' @ g)"
    using that by (rule migrate_step_after_switch)
  have loop: "\<forall>L1 tr1. migrate_step E n i cs L tr = (Inr L1, tr1) \<longrightarrow>
            migrate_loop E n i (cs # rest) L tr = migrate_loop E n (Suc i) rest L1 tr1"
    by simp
  have simple: "\<exists>tx. commands tx = commands tr @ [sw, probe', co', ''git add -A'']
        \<and> simple_step E n i sc SL tr =
            (Inr (SL\<lparr>s_current_branch := Some g', s_git_branches := insert g' (s_git_branches SL),
                     success_count := (if failed (subprocess_run E tx (simple_commit_cmd sc))
                                       then success_count SL else success_count SL + 1)\<rparr>),
             snd (run_cmd E tx (simple_commit_cmd sc) False)
               @ [Print (if failed (subprocess_run E tx (simple_commit_cmd sc)) then ''FAIL'' else ''OK'')])"
    if "s_branch sc = Some b'" "g' = git_branch_name b'" "Some g' \<noteq> s_current_branch SL"
       "ts0 = tr @ [PrintInline (simple_progress_line (i + 1) n (s_id sc))]"
       "sw = ''cm switch cs:'' @ str_int (s_id sc)"
       "\<not> failed (subprocess_run E ts0 sw)"
       "ts1 = snd (run_cmd E ts0 sw False)"
       "probe' = ''git rev-parse --verify '' @ g' @ '' 2>nul''"
       "co' = (if failed (subprocess_run E ts1 probe') then ''git checkout -b '' @ g' else ''git checkout '' @ g')"
    using that by (rule simple_step_after_switch)
  have sloop: "\<forall>L1 tr1. simple_step E n i sc SL tr = (Inr L1, tr1) \<longrightarrow>
            simple_loop E n i (sc # rest') SL tr = simple_loop E n (Suc i) rest' L1 tr1"
    by simp
  from main loop simple sloop show ?thesis by blast
qed

text \<open>
  The hypotheses of C2, as the code has it, hold for a changeset with an Added, a
  Deleted and a Moved change where the branch commands fail: both files are written,
  both deletions are made, and the commit that follows is reported as a success.
\<close>

theorem branch_failure_is_not_detected_witness:
  "branch cs_mixed = Some ''/main''
   \<and> Some ''main'' \<noteq> current_branch no_locals
   \<and> failed (subprocess_run mixed_env
         (snd (run_command mixed_env [PrintInline (progress_line 1 1 3 ''/main'')]
                 ''git rev-parse --verify main 2>nul'' False))
         ''git checkout -b main'')
   \<and> fst (migrate_step mixed_env 1 0 cs_mixed no_locals [])
        = Inr \<lparr>current_branch = Some ''main'', git_branches = {''main''}\<rparr>
   \<and> last (snd (migrate_step mixed_env 1 0 cs_mixed no_locals [])) = Print check_mark
   \<and> commands (snd (migrate_step mixed_env 1 0 cs_mixed no_locals [])) =
        [''git rev-parse --verify main 2>nul'', ''git checkout -b main'',
         cat_cmd (Some ''/a.txt'') 3,
         ''git rm '' @ [CHR 0x22] @ ''/d.txt'' @ [CHR 0x22] @ '' 2>nul'',
         ''git rm '' @ [CHR 0x22] @ ''/m1.txt'' @ [CHR 0x22] @ '' 2>nul'',
         cat_cmd (Some ''/m2.txt'') 3,
         ''git add -A'', commit_of cs_mixed]
   \<and> written_files (snd (migrate_step mixed_env 1 0 cs_mixed no_locals [])) =
        [(WORK_DIR @ [backslash] @ ''a.txt'', encode_utf8 ''hello''),
         (WORK_DIR @ [backslash] @ ''m2.txt'', encode_utf8 ''hello'')]
   \<and> filter (\<lambda>e. case e of Remove p \<Rightarrow> True | _ \<Rightarrow> False) (snd (migrate_step mixed_env 1 0 cs_mixed no_locals [])) =
        [Remove (WORK_DIR @ [backslash] @ ''d.txt''), Remove (WORK_DIR @ [backslash] @ ''m1.txt'')]
   \<and> s_branch sc_added = Some ''/main''
   \<and> Some ''main'' \<noteq> s_current_branch simple_no_locals
   \<and> \<not> failed (subprocess_run mixed_env [PrintInline (simple_progress_line 1 1 1)] ''cm switch cs:1'')
   \<and> failed (subprocess_run mixed_env
         (snd (run_cmd mixed_env
                 (snd (run_cmd mixed_env [PrintInline (simple_progress_line 1 1 1)] ''cm switch cs:1'' False))
                 ''git rev-parse --verify main 2>nul'' False))
         ''git checkout -b main'')
   \<and> fst (simple_step mixed_env 1 0 sc_added simple_no_locals [])
        = Inr \<lparr>s_current_branch = Some ''main'', s_git_branches = {''main''}, success_count = 1\<rparr>
   \<and> last (snd (simple_step mixed_env 1 0 sc_added simple_no_locals [])) = Print ''OK''"
proof -
  let ?E = mixed_env
  let ?tr0 = "[] @ [PrintInline (progress_line (0 + 1) 1 (cs_id cs_mixed) (take 40 ''/main''))]"
  let ?probe = "''git rev-parse --verify '' @ ''main'' @ '' 2>nul''"
  let ?co = "''git checkout -b main''"
  let ?X = "migrate_step ?E 1 0 cs_mixed no_locals []"
  let ?ts0 = "[] @ [PrintInline (simple_progress_line (0 + 1) 1 (s_id sc_added))]"
  let ?sw = "''cm switch cs:'' @ str_int (s_id sc_added)"
  let ?ts1 = "snd (run_cmd ?E ?ts0 ?sw False)"
  let ?Y = "simple_step ?E 1 0 sc_added simple_no_locals []"
  have h1: "branch cs_mixed = Some ''/main''" by code_simp
  have h2: "''main'' = git_branch_name ''/main''" by code_simp
  have h3: "Some ''main'' \<noteq> current_branch no_locals" by code_simp
  have h4: "?co = (if failed (subprocess_run ?E ?tr0 ?probe) then ''git checkout -b '' @ ''main''
                   else ''git checkout '' @ ''main'')" by code_simp
  have h5: "failed (subprocess_run ?E (snd (run_command ?E ?tr0 ?probe False)) ?co)" by code_simp
  have h6: "\<not> isl (fst ?X)" by code_simp
  have s1: "s_branch sc_added = Some ''/main''" by code_simp
  have s3: "Some ''main'' \<noteq> s_current_branch simple_no_locals" by code_simp
  have s4: "\<not> failed (subprocess_run ?E ?ts0 ?sw)" by code_simp
  have s5: "?co = (if failed (subprocess_run ?E ?ts1 ?probe) then ''git checkout -b '' @ ''main''
                   else ''git checkout '' @ ''main'')" by code_simp
  have s6: "failed (subprocess_run ?E (snd (run_cmd ?E ?ts1 ?probe False)) ?co)" by code_simp
  have ok1: "\<not> failed (subprocess_run ?E t (commit_of cs_mixed))" for t
    by (simp add: mixed_env_def sample_env_def failed_def commit_of_def take_commit_cmd)
  have ok2: "\<not> failed (subprocess_run ?E t (simple_commit_cmd sc_added))" for t
    by (simp add: mixed_env_def sample_env_def failed_def take_simple_commit_cmd)
  have v: "git_branches no_locals = {}" "s_git_branches simple_no_locals = {}"
          "s_current_branch simple_no_locals = None" "success_count simple_no_locals = 0"
    by (simp_all add: no_locals_def simple_no_locals_def)
  note t = branch_failure_is_not_detected [of cs_mixed "''/main''" "''main''" no_locals ?tr0 "[]" 0 1
             ?probe ?co ?E "[]" sc_added "''/main''" "''main''" simple_no_locals ?ts0 ?sw ?ts1 ?probe ?co "[]"]
  from t h1 h2 h3 h4 h5 obtain ta ra tb where m:
    "\<forall>e. ra = Some e \<longrightarrow> ?X = (Inl e, tb)"
    "ra = None \<longrightarrow> (\<exists>tx. ?X =
                    (Inr \<lparr>current_branch = Some ''main'', git_branches = insert ''main'' (git_branches no_locals)\<rparr>,
                     snd (run_command ?E tx (commit_of cs_mixed) False)
                       @ [Print (if failed (subprocess_run ?E tx (commit_of cs_mixed))
                                 then cross_mark @ '' commit failed'' else check_mark)]))"
    by blast
  from m(1) h6 have "ra = None" by (cases ra) auto
  with m(2) ok1 v have c1: "fst ?X = Inr \<lparr>current_branch = Some ''main'', git_branches = {''main''}\<rparr>"
    and c2: "last (snd ?X) = Print check_mark" by auto
  from t s1 h2 s3 s4 s5 s6 obtain tx where
    "?Y = (Inr (simple_no_locals\<lparr>s_current_branch := Some ''main'',
                     s_git_branches := insert ''main'' (s_git_branches simple_no_locals),
                     success_count := (if failed (subprocess_run ?E tx (simple_commit_cmd sc_added))
                                       then success_count simple_no_locals else success_count simple_no_locals + 1)\<rparr>),
             snd (run_cmd ?E tx (simple_commit_cmd sc_added) False)
               @ [Print (if failed (subprocess_run ?E tx (simple_commit_cmd sc_added)) then ''FAIL'' else ''OK'')])"
    by blast
  with ok2 have c3: "fst ?Y = Inr \<lparr>s_current_branch = Some ''main'', s_git_branches = {''main''}, success_count = 1\<rparr>"
    and c4: "last (snd ?Y) = Print ''OK''"
    by (simp_all add: simple_no_locals_def)
  have e1: "commands (snd ?X) =
        [''git rev-parse --verify main 2>nul'', ''git checkout -b main'',
         cat_cmd (Some ''/a.txt'') 3,
         ''git rm '' @ [CHR 0x22] @ ''/d.txt'' @ [CHR 0x22] @ '' 2>nul'',
         ''git rm '' @ [CHR 0x22] @ ''/m1.txt'' @ [CHR 0x22] @ '' 2>nul'',
         cat_cmd (Some ''/m2.txt'') 3,
         ''git add -A'', commit_of cs_mixed]" by code_simp
  have e2: "written_files (snd ?X) =
        [(WORK_DIR @ [backslash] @ ''a.txt'', encode_utf8 ''hello''),
         (WORK_DIR @ [backslash] @ ''m2.txt'', encode_utf8 ''hello'')]" by code_simp
  have e3: "filter (\<lambda>e. case e of Remove p \<Rightarrow> True | _ \<Rightarrow> False) (snd ?X) =
        [Remove (WORK_DIR @ [backslash] @ ''d.txt''), Remove (WORK_DIR @ [backslash] @ ''m1.txt'')]"
    by code_simp
  have g1: "failed (subprocess_run mixed_env
         (snd (run_command mixed_env [PrintInline (progress_line 1 1 3 ''/main'')]
                 ''git rev-parse --verify main 2>nul'' False))
         ''git checkout -b main'')" by code_simp
  have g2: "\<not> failed (subprocess_run mixed_env [PrintInline (simple_progress_line 1 1 1)] ''cm switch cs:1'')"
    by code_simp
  have g3: "failed (subprocess_run mixed_env
         (snd (run_cmd mixed_env
                 (snd (run_cmd mixed_env [PrintInline (simple_progress_line 1 1 1)] ''cm switch cs:1'' False))
                 ''git rev-parse --verify main 2>nul'' False))
         ''git checkout -b main'')" by code_simp
  from h1 h3 g1 c1 c2 e1 e2 e3 s1 s3 g2 g3 c3 c4 show ?thesis by blast
qed

text \<open>
  C2 as stated fails on \<open>doc_added_file\<close> where every branch command fails: the file is
  retrieved and written, the commit is attempted, and the changeset is reported as a
  success, in both scripts.
\<close>

theorem failed_checkout_counterexample:
  "failed (subprocess_run (sample_env checkout_fails) [] ''git checkout -b main'')
   \<and> commands (snd (migrate_history (sample_env checkout_fails) doc_added_file)) =
       [''git rev-parse --verify main 2>nul'', ''git checkout -b main'',
        cat_cmd (Some ''/a.txt'') 1, ''git add -A'',
        commit_cmd ''add a'' (Some ''2024-01-01'') GIT_AUTHOR_EMAIL GIT_AUTHOR_NAME,
        ''git branch -a'']
   \<and> written_files (snd (migrate_history (sample_env checkout_fails) doc_added_file)) =
       [(WORK_DIR @ [backslash] @ ''a.txt'', [])]
   \<and> Print check_mark \<in> set (snd (migrate_history (sample_env checkout_fails) doc_added_file))
   \<and> commands (snd (migrate (sample_env checkout_fails) doc_added_file)) =
       [''cm switch cs:1'', ''git rev-parse --verify main 2>nul'', ''git checkout -b main'',
        ''git add -A'', simple_commit_cmd sc_added]
   \<and> Print ''Complete: 1/1 commits created'' \<in> set (snd (migrate (sample_env checkout_fails) doc_added_file))"
  by code_simp

section \<open>Branch tracking\<close>

lemma simple_step_same_branch:
  assumes "s_branch sc = Some b" "s_current_branch L = Some (git_branch_name b)"
      and step: "simple_step E n i sc L tr = (r, tr1)"
  shows "branch_commands tr1 = branch_commands tr"
proof (cases "failed (subprocess_run E (tr @ [PrintInline (simple_progress_line (i + 1) n (s_id sc))])
                     (''cm switch cs:'' @ str_int (s_id sc)))")
  case True
  from simple_step_skip [OF True step] show ?thesis by (simp add: branch_commands_def)
next
  case False
  from simple_step_Inr_ex [OF False assms(1), of L] step obtain L1 where r: "r = Inr L1" by auto
  from simple_step_commands [OF False step [unfolded r]] assms(1,2) show ?thesis
    by (auto simp: branch_commands_def take_simple_commit_cmd)
qed

lemma migrate_run:
  assumes "migrate E root = (None, tr)"
      and "\<forall>t c. take 10 c = ''cm switch '' \<longrightarrow> \<not> failed (subprocess_run E t c)"
  shows "\<exists>scs L. parse_history root = Inr scs
           \<and> s_git_branches L = simple_mapped_branches scs
           \<and> set (simple_summary_lines (length scs) L) \<subseteq> set tr"
proof -
  from assms(1) obtain scs where p: "parse_history root = Inr scs"
    by (cases "parse_history root") (auto simp: migrate_def)
  define tr1 where "tr1 = [Print ''Parsing history...'',
       Print (''Found '' @ str_nat (length scs) @ '' changesets'' @ [newline]),
                               Print (''Migrating...'' @ [newline])]"
  obtain r2 tr2 where lp: "simple_loop E (length scs) 0 scs
        \<lparr>s_current_branch = None, s_git_branches = {}, success_count = 0\<rparr> tr1 = (r2, tr2)"
    by (cases "simple_loop E (length scs) 0 scs \<lparr>s_current_branch = None, s_git_branches = {}, success_count = 0\<rparr> tr1")
  from assms(1) p lp obtain L where r2: "r2 = Inr L"
    by (cases r2) (auto simp: migrate_def Let_def tr1_def)
  from assms(1) p lp r2 have tr: "tr = tr2 @ simple_summary_lines (length scs) L"
    by (auto simp: migrate_def Let_def tr1_def)
  from simple_loop_run [OF lp [unfolded r2] assms(2)]
  have "s_git_branches L = simple_mapped_branches scs"
    by (simp add: simple_mapped_branches_eq)
  with p tr show ?thesis by auto
qed

text \<open>
  C10. The environment \<open>E\<close> is arbitrary below: its branch commands may fail. When the
  mapped branch name of a changeset differs from the tracked one and the step raises
  no exception, the step leaves \<open>current_branch\<close> at the mapped name and the mapped
  name in the set of created branches. A changeset whose mapped name is the tracked
  one issues no branch probe, creation or checkout: a switch that failed is not
  tried again. At the end of a run without exception the summary of
  migrate_plastic_to_git.py counts the mapped names of all changesets, and that of
  migrate_simple.py lists them, whatever the branch commands answered. In
  migrate_simple.py a changeset reaches the branch block only when its workspace
  switch succeeded.
\<close>

theorem branch_state_updated_unconditionally:
  "(branch cs = Some b \<and> Some (git_branch_name b) \<noteq> current_branch L
      \<and> migrate_step E n i cs L tr = (Inr L1, tr1) \<longrightarrow>
        current_branch L1 = Some (git_branch_name b)
        \<and> git_branches L1 = insert (git_branch_name b) (git_branches L))
   \<and> (branch cs = Some b \<and> current_branch L = Some (git_branch_name b)
      \<and> migrate_step E n i cs L tr = (r, tr1) \<longrightarrow>
        branch_commands tr1 = branch_commands tr)
   \<and> (migrate_history E root = (None, trh) \<longrightarrow>
        (\<exists>css. parse_xml_history root = Inr css
           \<and> Print (''  - '' @ str_nat (card (mapped_branches css)) @ '' branches created'') \<in> set trh))
   \<and> (s_branch sc = Some b' \<and> Some (git_branch_name b') \<noteq> s_current_branch SL
      \<and> \<not> failed (subprocess_run E (tr @ [PrintInline (simple_progress_line (i + 1) n (s_id sc))])
                     (''cm switch cs:'' @ str_int (s_id sc)))
      \<and> simple_step E n i sc SL tr = (Inr SL1, tr1') \<longrightarrow>
        s_current_branch SL1 = Some (git_branch_name b')
        \<and> s_git_branches SL1 = insert (git_branch_name b') (s_git_branches SL))
   \<and> (s_branch sc = Some b' \<and> s_current_branch SL = Some (git_branch_name b')
      \<and> simple_step E n i sc SL tr = (r', tr1') \<longrightarrow>
        branch_commands tr1' = branch_commands tr)
   \<and> ((\<forall>t c. take 10 c = ''cm switch '' \<longrightarrow> \<not> failed (subprocess_run E t c))
      \<and> migrate E root = (None, trs) \<longrightarrow>
        (\<exists>scs. parse_history root = Inr scs
           \<and> Print (''  Branches: '' @ join '', '' (sorted_list_of_set (simple_mapped_branches scs))) \<in> set trs))"
proof -
  have 1: "current_branch L1 = Some (git_branch_name b)
        \<and> git_branches L1 = insert (git_branch_name b) (git_branches L)"
    if "branch cs = Some b" "Some (git_branch_name b) \<noteq> current_branch L"
       "migrate_step E n i cs L tr = (Inr L1, tr1)"
    using migrate_step_locals [OF that(3)] that(1,2) by auto
  have 2: "branch_commands tr1 = branch_commands tr"
    if "branch cs = Some b" "current_branch L = Some (git_branch_name b)"
       "migrate_step E n i cs L tr = (r, tr1)"
    using migrate_step_branch_commands [OF that(3,1)] that(2) by simp
  have 3: "\<exists>css. parse_xml_history root = Inr css
           \<and> Print (''  - '' @ str_nat (card (mapped_branches css)) @ '' branches created'') \<in> set trh"
    if "migrate_history E root = (None, trh)"
  proof -
    from migrate_history_run [OF that] obtain css L' where
      "parse_xml_history root = Inr css" "git_branches L' = mapped_branches css"
      "set (summary_lines (length css) L') \<subseteq> set trh" by blast
    then show ?thesis by (auto simp: summary_lines_def)
  qed
  have 4: "s_current_branch SL1 = Some (git_branch_name b')
        \<and> s_git_branches SL1 = insert (git_branch_name b') (s_git_branches SL)"
    if "s_branch sc = Some b'" "Some (git_branch_name b') \<noteq> s_current_branch SL"
       "\<not> failed (subprocess_run E (tr @ [PrintInline (simple_progress_line (i + 1) n (s_id sc))])
                     (''cm switch cs:'' @ str_int (s_id sc)))"
       "simple_step E n i sc SL tr = (Inr SL1, tr1')"
    using simple_step_commands [OF that(3,4)] that(1,2) by auto
  have 5: "branch_commands tr1' = branch_commands tr"
    if "s_branch sc = Some b'" "s_current_branch SL = Some (git_branch_name b')"
       "simple_step E n i sc SL tr = (r', tr1')"
    using that by (rule simple_step_same_branch)
  have 6: "\<exists>scs. parse_history root = Inr scs
           \<and> Print (''  Branches: '' @ join '', '' (sorted_list_of_set (simple_mapped_branches scs))) \<in> set trs"
    if "\<forall>t c. take 10 c = ''cm switch '' \<longrightarrow> \<not> failed (subprocess_run E t c)"
       "migrate E root = (None, trs)"
  proof -
    from migrate_run [OF that(2,1)] obtain scs L' where
      "parse_history root = Inr scs" "s_git_branches L' = simple_mapped_branches scs"
      "set (simple_summary_lines (length scs) L') \<subseteq> set trs" by blast
    then show ?thesis by (auto simp: simple_summary_lines_def)
  qed
  from 1 2 3 4 5 6 show ?thesis by blast
qed

lemma switch_not_branch:
  assumes "take 10 c = ''cm switch ''"
  shows "take 14 c \<noteq> ''git rev-parse ''" "take 13 c \<noteq> ''git checkout ''"
proof -
  from arg_cong [OF assms, of "take 1"] have h: "take 1 c = ''c''" by simp
  show "take 14 c \<noteq> ''git rev-parse ''"
  proof
    assume "take 14 c = ''git rev-parse ''"
    from arg_cong [OF this, of "take 1"] h show False by simp
  qed
  show "take 13 c \<noteq> ''git checkout ''"
  proof
    assume "take 13 c = ''git checkout ''"
    from arg_cong [OF this, of "take 1"] h show False by simp
  qed
qed

text \<open>
  The hypotheses of C10 hold where no branch exists and none can be created or checked
  out: the first changeset on \<open>/main\<close> sets the tracked branch to \<open>main\<close>, a second
  one on the same branch issues no branch command, and both summaries report \<open>main\<close>.
\<close>

theorem branch_state_updated_unconditionally_witness:
  "failed (subprocess_run (sample_env checkout_fails) [] ''git checkout -b main'')
   \<and> branch cs_added = Some ''/main''
   \<and> Some (git_branch_name ''/main'') \<noteq> current_branch no_locals
   \<and> \<not> isl (fst (migrate_step (sample_env checkout_fails) 2 0 cs_added no_locals []))
   \<and> current_branch (projr (fst (migrate_step (sample_env checkout_fails) 2 0 cs_added no_locals []))) = Some ''main''
   \<and> git_branches (projr (fst (migrate_step (sample_env checkout_fails) 2 0 cs_added no_locals []))) = {''main''}
   \<and> branch_commands (snd (migrate_step (sample_env checkout_fails) 2 0 cs_added no_locals []))
        = [''git rev-parse --verify main 2>nul'', ''git checkout -b main'']
   \<and> branch_commands (snd (migrate_step (sample_env checkout_fails) 2 1 cs_added
          (projr (fst (migrate_step (sample_env checkout_fails) 2 0 cs_added no_locals [])))
          (snd (migrate_step (sample_env checkout_fails) 2 0 cs_added no_locals []))))
        = [''git rev-parse --verify main 2>nul'', ''git checkout -b main'']
   \<and> fst (migrate_history (sample_env checkout_fails) doc_two) = None
   \<and> Print ''  - 1 branches created'' \<in> set (snd (migrate_history (sample_env checkout_fails) doc_two))
   \<and> s_branch sc_added = Some ''/main''
   \<and> Some (git_branch_name ''/main'') \<noteq> s_current_branch simple_no_locals
   \<and> \<not> isl (fst (simple_step (sample_env checkout_fails) 2 0 sc_added simple_no_locals []))
   \<and> s_current_branch (projr (fst (simple_step (sample_env checkout_fails) 2 0 sc_added simple_no_locals []))) = Some ''main''
   \<and> s_git_branches (projr (fst (simple_step (sample_env checkout_fails) 2 0 sc_added simple_no_locals []))) = {''main''}
   \<and> branch_commands (snd (simple_step (sample_env checkout_fails) 2 1 sc_added
          (projr (fst (simple_step (sample_env checkout_fails) 2 0 sc_added simple_no_locals [])))
          (snd (simple_step (sample_env checkout_fails) 2 0 sc_added simple_no_locals []))))
        = [''git rev-parse --verify main 2>nul'', ''git checkout -b main'']
   \<and> fst (migrate (sample_env checkout_fails) doc_two) = None
   \<and> Print ''  Branches: main'' \<in> set (snd (migrate (sample_env checkout_fails) doc_two))"
proof -
  let ?E = "sample_env checkout_fails"
  let ?X = "migrate_step ?E 2 0 cs_added no_locals []"
  let ?X2 = "migrate_step ?E 2 1 cs_added (projr (fst ?X)) (snd ?X)"
  let ?Y = "simple_step ?E 2 0 sc_added simple_no_locals []"
  let ?Y2 = "simple_step ?E 2 1 sc_added (projr (fst ?Y)) (snd ?Y)"
  let ?H = "migrate_history ?E doc_two"
  let ?M = "migrate ?E doc_two"
  have sw: "\<forall>t c. take 10 c = ''cm switch '' \<longrightarrow> \<not> failed (subprocess_run ?E t c)"
    using switch_not_branch by (simp add: sample_env_def checkout_fails_def failed_def)
  have h0: "failed (subprocess_run ?E [] ''git checkout -b main'')" by code_simp
  have h1: "branch cs_added = Some ''/main''" by code_simp
  have h2: "Some (git_branch_name ''/main'') \<noteq> current_branch no_locals" by code_simp
  have h3: "\<not> isl (fst ?X)" by code_simp
  have h4: "current_branch (projr (fst ?X)) = Some (git_branch_name ''/main'')" by code_simp
  have h5: "?H = (None, snd ?H)" by code_simp
  have h6: "s_branch sc_added = Some ''/main''" by code_simp
  have h7: "Some (git_branch_name ''/main'') \<noteq> s_current_branch simple_no_locals" by code_simp
  have h8: "\<not> failed (subprocess_run ?E ([] @ [PrintInline (simple_progress_line (0 + 1) 2 (s_id sc_added))])
                     (''cm switch cs:'' @ str_int (s_id sc_added)))"
    by code_simp
  have h9: "\<not> isl (fst ?Y)" by code_simp
  have h10: "s_current_branch (projr (fst ?Y)) = Some (git_branch_name ''/main'')" by code_simp
  have h11: "?M = (None, snd ?M)" by code_simp
  have v1: "git_branch_name ''/main'' = ''main''" by code_simp
  have v2: "git_branches no_locals = {}" "s_git_branches simple_no_locals = {}"
    by (simp_all add: no_locals_def simple_no_locals_def)
  have v3: "branch_commands (snd ?X) = [''git rev-parse --verify main 2>nul'', ''git checkout -b main'']"
    by code_simp
  have v4: "branch_commands (snd ?Y) = [''git rev-parse --verify main 2>nul'', ''git checkout -b main'']"
    by code_simp
  have v5: "Print ''  - 1 branches created'' \<in> set (snd ?H)" by code_simp
  have v6: "Print ''  Branches: main'' \<in> set (snd ?M)" by code_simp
  note t1 = branch_state_updated_unconditionally [of cs_added "''/main''" no_locals ?E 2 0 "[]"
              "projr (fst ?X)" "snd ?X" "fst ?X" doc_two "snd ?H" sc_added "''/main''" simple_no_locals
              "projr (fst ?Y)" "snd ?Y" "fst ?Y" "snd ?M"]
  note t2 = branch_state_updated_unconditionally [of cs_added "''/main''" "projr (fst ?X)" ?E 2 1 "snd ?X"
              "projr (fst ?X2)" "snd ?X2" "fst ?X2" doc_two "snd ?H" sc_added "''/main''" "projr (fst ?Y)"
              "projr (fst ?Y2)" "snd ?Y2" "fst ?Y2" "snd ?M"]
  from t1 h1 h2 step_result [OF h3] v1 v2
  have c1: "current_branch (projr (fst ?X)) = Some ''main''" "git_branches (projr (fst ?X)) = {''main''}"
    by auto
  have p2: "?X2 = (fst ?X2, snd ?X2)" by simp
  from t2 h1 h4 p2 have "branch_commands (snd ?X2) = branch_commands (snd ?X)" by blast
  with v3 have c2: "branch_commands (snd ?X2) = [''git rev-parse --verify main 2>nul'', ''git checkout -b main'']"
    by simp
  from t1 h5 have c3: "\<exists>css. parse_xml_history doc_two = Inr css
           \<and> Print (''  - '' @ str_nat (card (mapped_branches css)) @ '' branches created'') \<in> set (snd ?H)"
    by blast
  from t1 h6 h7 h8 step_result [OF h9] v1 v2
  have c4: "s_current_branch (projr (fst ?Y)) = Some ''main''" "s_git_branches (projr (fst ?Y)) = {''main''}"
    by auto
  have q2: "?Y2 = (fst ?Y2, snd ?Y2)" by simp
  note t3 = branch_state_updated_unconditionally [of cs_added "''/main''" no_locals ?E 2 1 "snd ?Y"
              "projr (fst ?X)" "snd ?X" "fst ?X" doc_two "snd ?H" sc_added "''/main''" "projr (fst ?Y)"
              "projr (fst ?Y2)" "snd ?Y2" "fst ?Y2" "snd ?M"]
  from t3 h6 h10 q2 have "branch_commands (snd ?Y2) = branch_commands (snd ?Y)" by blast
  with v4 have c5: "branch_commands (snd ?Y2) = [''git rev-parse --verify main 2>nul'', ''git checkout -b main'']"
    by simp
  from t1 sw h11 have c6: "\<exists>scs. parse_history doc_two = Inr scs
           \<and> Print (''  Branches: '' @ join '', '' (sorted_list_of_set (simple_mapped_branches scs))) \<in> set (snd ?M)"
    by blast
  from h5 have f1: "fst ?H = None" by (metis fst_conv)
  from h11 have f2: "fst ?M = None" by (metis fst_conv)
  from h0 h1 h2 h3 h6 h7 h9 c1 c2 c4 c5 v3 v5 v6 f1 f2 show ?thesis by blast
qed

section \<open>The summary and the written content\<close>

text \<open>
  C3. The document \<open>doc_two\<close> holds two changesets; the first commit command of the run
  fails, the second succeeds. Both scripts go on to the second changeset.
  migrate_simple.py counts one success and prints \<open>Complete: 1/2 commits created\<close>.
  migrate_plastic_to_git.py reports the failure on the progress line of the first
  changeset and then prints \<open>2 commits created\<close>: its summary prints the number of
  changesets, it keeps no count of the commits that succeeded.
\<close>

theorem failed_commit_counted_as_created:
  "failed (subprocess_run (sample_env first_commit_fails) []
             (commit_cmd ''first'' (Some ''2024-01-01'') GIT_AUTHOR_EMAIL GIT_AUTHOR_NAME))
   \<and> commit_attempts (snd (migrate_history (sample_env first_commit_fails) doc_two)) =
       [commit_cmd ''first'' (Some ''2024-01-01'') GIT_AUTHOR_EMAIL GIT_AUTHOR_NAME,
        commit_cmd ''second'' (Some ''2024-01-01'') GIT_AUTHOR_EMAIL GIT_AUTHOR_NAME]
   \<and> filter (\<lambda>e. e = Print check_mark \<or> e = Print (cross_mark @ '' commit failed''))
         (snd (migrate_history (sample_env first_commit_fails) doc_two)) =
       [Print (cross_mark @ '' commit failed''), Print check_mark]
   \<and> Print ''  - 2 commits created'' \<in> set (snd (migrate_history (sample_env first_commit_fails) doc_two))
   \<and> filter (\<lambda>e. e = Print ''OK'' \<or> e = Print ''FAIL'')
         (snd (migrate (sample_env first_commit_fails) doc_two)) = [Print ''FAIL'', Print ''OK'']
   \<and> Print ''Complete: 1/2 commits created'' \<in> set (snd (migrate (sample_env first_commit_fails) doc_two))"
  by code_simp

text \<open>
  C4. The content provider succeeds and returns the six bytes of \<open>hello\<close> followed by a
  line feed for \<open>/a.txt\<close> at changeset 1. \<open>run_command\<close> reads the output as text
  and returns it stripped, so \<open>apply_changeset_files\<close> writes the five bytes of
  \<open>hello\<close>: the line feed that ends the file is lost.
\<close>

theorem file_content_is_stripped:
  "subprocess_run (sample_env cat_hello) [] (cat_cmd (Some ''/a.txt'') 1) = Completed (''hello'' @ [newline]) 0
   \<and> apply_changeset_files (sample_env cat_hello) [] cs_added 1 =
       (None, [Run (cat_cmd (Some ''/a.txt'') 1), MakeDirs WORK_DIR,
               WriteFile (WORK_DIR @ [backslash] @ ''a.txt'') [104, 101, 108, 108, 111]])
   \<and> written_files (snd (migrate_history (sample_env cat_hello) doc_added_file)) =
       [(WORK_DIR @ [backslash] @ ''a.txt'', encode_utf8 ''hello'')]
   \<and> encode_utf8 ''hello'' = [104, 101, 108, 108, 111]
   \<and> encode_utf8 (''hello'' @ [newline]) = [104, 101, 108, 108, 111, 10]"
  by code_simp

end
